theory Spec2Isabelle
  imports Complex_Main "HOL-Library.Word"
begin

section \<open>DatabaseCircuitBreaker\<close>

text \<open>
  The breaker of \<^verbatim>\<open>src/database/DatabaseCircuitBreaker.ts\<close>. Counters and thresholds are
  natural numbers, clock readings (\<^verbatim>\<open>Date.now()\<close>) and durations are integers in
  milliseconds, and the retry delay is a real number, since the jitter multiplies it by a
  fraction. Every synchronous handler reads the clock once: the reading is an argument.
\<close>

datatype CircuitState = CLOSED | OPEN | HALF_OPEN

record CircuitBreakerConfig =
  failureThreshold :: nat
  resetTimeout :: int
  monitoringWindow :: int
  successThreshold :: nat
  maxRetries :: nat
  retryDelay :: real

definition DEFAULT_CONFIG :: CircuitBreakerConfig where
  "DEFAULT_CONFIG =
     \<lparr>failureThreshold = 5, resetTimeout = 60000, monitoringWindow = 300000,
      successThreshold = 3, maxRetries = 3, retryDelay = 1000\<rparr>"

record DatabaseCircuitBreaker =
  config :: CircuitBreakerConfig
  state :: CircuitState
  failureCount :: nat
  successCount :: nat
  lastFailureTime :: "int option"
  lastSuccessTime :: "int option"
  totalCalls :: nat
  totalFailures :: nat
  totalSuccesses :: nat
  startTime :: int
  lastStateChange :: int
  consecutiveSuccesses :: nat

text \<open>The constructor, run at clock reading \<open>now\<close> with the merged configuration.\<close>

definition new_breaker :: "CircuitBreakerConfig \<Rightarrow> int \<Rightarrow> DatabaseCircuitBreaker" where
  "new_breaker cfg now =
     \<lparr>config = cfg, state = CLOSED, failureCount = 0, successCount = 0,
      lastFailureTime = None, lastSuccessTime = None, totalCalls = 0,
      totalFailures = 0, totalSuccesses = 0, startTime = now,
      lastStateChange = now, consecutiveSuccesses = 0\<rparr>"

text \<open>
  In \<^verbatim>\<open>!this.lastFailureTime\<close> an absent time and the time 0 are both falsy: the two
  functions that test it treat \<open>None\<close> and \<open>Some 0\<close> alike.
\<close>

definition setState :: "int \<Rightarrow> CircuitState \<Rightarrow> DatabaseCircuitBreaker \<Rightarrow> DatabaseCircuitBreaker" where
  "setState now newState b =
     (if state b \<noteq> newState then b\<lparr>state := newState, lastStateChange := now\<rparr> else b)"

definition cleanupOldFailures :: "int \<Rightarrow> DatabaseCircuitBreaker \<Rightarrow> DatabaseCircuitBreaker" where
  "cleanupOldFailures now b =
     (case lastFailureTime b of
        None \<Rightarrow> b
      | Some lf \<Rightarrow>
          if lf = 0 then b
          else let cutoffTime = now - monitoringWindow (config b)
               in if lf < cutoffTime then b\<lparr>failureCount := 0\<rparr> else b)"

definition onSuccess :: "int \<Rightarrow> DatabaseCircuitBreaker \<Rightarrow> DatabaseCircuitBreaker" where
  "onSuccess now b =
     (let b1 = b\<lparr>successCount := successCount b + 1,
                 totalSuccesses := totalSuccesses b + 1,
                 consecutiveSuccesses := consecutiveSuccesses b + 1,
                 lastSuccessTime := Some now\<rparr>;
          b2 = cleanupOldFailures now b1
      in if state b2 = HALF_OPEN then
           (if consecutiveSuccesses b2 \<ge> successThreshold (config b2)
            then (setState now CLOSED b2)\<lparr>failureCount := 0, consecutiveSuccesses := 0\<rparr>
            else b2)
         else if state b2 = CLOSED then b2\<lparr>failureCount := 0\<rparr>
         else b2)"

definition onFailure :: "int \<Rightarrow> DatabaseCircuitBreaker \<Rightarrow> DatabaseCircuitBreaker" where
  "onFailure now b =
     (let b1 = b\<lparr>failureCount := failureCount b + 1,
                 totalFailures := totalFailures b + 1,
                 consecutiveSuccesses := 0,
                 lastFailureTime := Some now\<rparr>;
          b2 = cleanupOldFailures now b1
      in if state b2 = CLOSED \<or> state b2 = HALF_OPEN then
           (if failureCount b2 \<ge> failureThreshold (config b2)
            then setState now OPEN b2 else b2)
         else b2)"

definition shouldAttemptReset :: "int \<Rightarrow> DatabaseCircuitBreaker \<Rightarrow> bool" where
  "shouldAttemptReset now b =
     (case lastFailureTime b of
        None \<Rightarrow> True
      | Some lf \<Rightarrow> if lf = 0 then True else now - lf \<ge> resetTimeout (config b))"

text \<open>
  \<^verbatim>\<open>calculateRetryDelay\<close>; \<open>u\<close> is the value \<^verbatim>\<open>Math.random()\<close> returns, a number
  in \<open>[0, 1)\<close>. The arithmetic is that of the source, over the real numbers.
\<close>

definition calculateRetryDelay :: "DatabaseCircuitBreaker \<Rightarrow> real \<Rightarrow> nat \<Rightarrow> real" where
  "calculateRetryDelay b u attempt =
     (let exponentialDelay = retryDelay (config b) * 2 ^ attempt;
          jitter = u * 0.1 * exponentialDelay
      in min (exponentialDelay + jitter) 30000)"

subsection \<open>Executing an operation\<close>

text \<open>
  The wrapped operation is a closure the breaker invokes once per attempt; each invocation
  is assumed to settle. Its behaviour during one call of \<^verbatim>\<open>execute\<close> is the outcome
  of its \<open>k\<close>-th invocation, for each \<open>k\<close> from 0. The environment of a call also fixes the
  value of \<^verbatim>\<open>Math.random()\<close> for the delay after the \<open>k\<close>-th failed attempt, and the two
  clock readings: on entry, and when the outcome is recorded.
\<close>

datatype 'a outcome = Resolved 'a | Rejected string

record 'a call_env =
  operation :: "nat \<Rightarrow> 'a outcome"
  random :: "nat \<Rightarrow> real"
  now_call :: int
  now_settled :: int

record 'a CircuitBreakerResult =
  cbr_success :: bool
  cbr_data :: "'a option"
  cbr_error :: "string option"
  cbr_circuitState :: CircuitState
  cbr_retryAttempt :: "nat option"

text \<open>
  What a call did besides its result: how often it invoked the operation, and the delays it
  slept for, in order.
\<close>

record call_trace =
  invocations :: nat
  slept :: "real list"

definition no_trace :: call_trace where
  "no_trace = \<lparr>invocations = 0, slept = []\<rparr>"

datatype 'a loop_exit = Returned 'a nat | Fell_through "string option"

text \<open>
  The \<^verbatim>\<open>for\<close> loop of \<^verbatim>\<open>executeWithRetries\<close>, from attempt number \<open>attempt\<close> on, with
  the last error caught so far.
\<close>

function retry_loop ::
  "DatabaseCircuitBreaker \<Rightarrow> 'a call_env \<Rightarrow> nat \<Rightarrow> string option \<Rightarrow> call_trace
     \<Rightarrow> 'a loop_exit \<times> call_trace" where
  "retry_loop b env attempt lastError tr =
     (if attempt \<le> maxRetries (config b) then
        (case operation env attempt of
           Resolved result \<Rightarrow> (Returned result attempt, tr\<lparr>invocations := invocations tr + 1\<rparr>)
         | Rejected msg \<Rightarrow>
             let tr1 = tr\<lparr>invocations := invocations tr + 1\<rparr>;
                 tr2 = (if attempt < maxRetries (config b)
                        then tr1\<lparr>slept := slept tr1 @
                                   [calculateRetryDelay b (random env attempt) attempt]\<rparr>
                        else tr1)
             in retry_loop b env (attempt + 1) (Some msg) tr2)
      else (Fell_through lastError, tr))"
  by pat_completeness auto
termination
  by (relation "measure (\<lambda>(b, env, attempt, lastError, tr). maxRetries (config b) + 1 - attempt)")
     auto

declare retry_loop.simps [simp del]

text \<open>Decimal rendering of a number inside a template string.\<close>

function show_nat :: "nat \<Rightarrow> string" where
  "show_nat n =
     (if n < 10 then [char_of (48 + n)]
      else show_nat (n div 10) @ [char_of (48 + n mod 10)])"
  by pat_completeness auto
termination
  by (relation "measure (\<lambda>n. n)") auto

declare show_nat.simps [simp del]

definition executeWithRetries ::
  "'a call_env \<Rightarrow> string \<Rightarrow> DatabaseCircuitBreaker
     \<Rightarrow> 'a CircuitBreakerResult \<times> call_trace \<times> DatabaseCircuitBreaker" where
  "executeWithRetries env operationName b =
     (case retry_loop b env 0 None no_trace of
        (Returned result attempt, tr) \<Rightarrow>
          let b' = onSuccess (now_settled env) b
          in (\<lparr>cbr_success = True, cbr_data = Some result, cbr_error = None,
               cbr_circuitState = state b', cbr_retryAttempt = Some attempt\<rparr>, tr, b')
      | (Fell_through lastError, tr) \<Rightarrow>
          let b' = onFailure (now_settled env) b
          in (\<lparr>cbr_success = False, cbr_data = None,
               cbr_error = Some (operationName @ '' failed after ''
                  @ show_nat (maxRetries (config b) + 1) @ '' attempts: ''
                  @ (case lastError of Some msg \<Rightarrow> msg | None \<Rightarrow> ''undefined'')),
               cbr_circuitState = state b',
               cbr_retryAttempt = Some (maxRetries (config b))\<rparr>, tr, b'))"

definition execute ::
  "'a call_env \<Rightarrow> string \<Rightarrow> DatabaseCircuitBreaker
     \<Rightarrow> 'a CircuitBreakerResult \<times> call_trace \<times> DatabaseCircuitBreaker" where
  "execute env operationName b0 =
     (let b = b0\<lparr>totalCalls := totalCalls b0 + 1\<rparr>
      in if state b = OPEN then
           (if shouldAttemptReset (now_call env) b
            then executeWithRetries env operationName (setState (now_call env) HALF_OPEN b)
            else (\<lparr>cbr_success = False, cbr_data = None,
                   cbr_error = Some (''Circuit breaker is OPEN for '' @ operationName
                                      @ ''. Blocking operation.''),
                   cbr_circuitState = state b, cbr_retryAttempt = None\<rparr>, no_trace, b))
         else executeWithRetries env operationName b)"

text \<open>The manual controls.\<close>

definition reset :: "int \<Rightarrow> DatabaseCircuitBreaker \<Rightarrow> DatabaseCircuitBreaker" where
  "reset now b =
     (setState now CLOSED b)\<lparr>failureCount := 0, successCount := 0, consecutiveSuccesses := 0,
                              lastFailureTime := None, lastSuccessTime := None\<rparr>"

definition manual_open :: "int \<Rightarrow> DatabaseCircuitBreaker \<Rightarrow> DatabaseCircuitBreaker" where
  "manual_open now b = (setState now OPEN b)\<lparr>lastFailureTime := Some now\<rparr>"

definition updateConfig :: "CircuitBreakerConfig \<Rightarrow> DatabaseCircuitBreaker \<Rightarrow> DatabaseCircuitBreaker" where
  "updateConfig newConfig b = b\<lparr>config := newConfig\<rparr>"

text \<open>Two call environments used as examples: an operation that succeeds on its third
  invocation, and one that always fails.\<close>

definition flaky_env :: "nat call_env" where
  "flaky_env = \<lparr>operation = (\<lambda>k. if k < 2 then Rejected ''busy'' else Resolved 7),
                random = (\<lambda>k. 0), now_call = 1000, now_settled = 4000\<rparr>"

definition failing_env :: "int \<Rightarrow> int \<Rightarrow> nat call_env" where
  "failing_env t t' = \<lparr>operation = (\<lambda>k. Rejected ''locked''),
                random = (\<lambda>k. 0), now_call = t, now_settled = t'\<rparr>"

subsection \<open>Histories\<close>

text \<open>
  What can happen to a breaker after its construction: calls of \<^verbatim>\<open>execute\<close>, and the manual
  controls. A history is a list of such events, applied in order.
\<close>

datatype 'a event =
    Call "'a call_env" string
  | ManualReset int
  | ManualOpen int
  | ConfigUpdate CircuitBreakerConfig

fun apply_event :: "'a event \<Rightarrow> DatabaseCircuitBreaker \<Rightarrow> DatabaseCircuitBreaker" where
  "apply_event (Call env operationName) b = snd (snd (execute env operationName b))"
| "apply_event (ManualReset now) b = reset now b"
| "apply_event (ManualOpen now) b = manual_open now b"
| "apply_event (ConfigUpdate newConfig) b = updateConfig newConfig b"

definition run_events :: "'a event list \<Rightarrow> DatabaseCircuitBreaker \<Rightarrow> DatabaseCircuitBreaker" where
  "run_events evs b = fold apply_event evs b"

text \<open>The clock never reads 0 (the first millisecond of 1970) during an event.\<close>

fun clock_nonzero :: "'a event \<Rightarrow> bool" where
  "clock_nonzero (Call env operationName) = (now_call env \<noteq> 0 \<and> now_settled env \<noteq> 0)"
| "clock_nonzero (ManualReset now) = (now \<noteq> 0)"
| "clock_nonzero (ManualOpen now) = (now \<noteq> 0)"
| "clock_nonzero (ConfigUpdate newConfig) = True"

text \<open>An operation that succeeds at once.\<close>

definition healthy_env :: "int \<Rightarrow> int \<Rightarrow> nat call_env" where
  "healthy_env t t' = \<lparr>operation = (\<lambda>k. Resolved 7),
                random = (\<lambda>k. 0), now_call = t, now_settled = t'\<rparr>"

text \<open>
  The state in which the retry loop starts when \<^verbatim>\<open>execute\<close> lets a call through: the
  call is counted, and an open breaker has moved to half-open.
\<close>

definition admitted :: "int \<Rightarrow> DatabaseCircuitBreaker \<Rightarrow> DatabaseCircuitBreaker" where
  "admitted now b = (if state b = OPEN
      then setState now HALF_OPEN (b\<lparr>totalCalls := totalCalls b + 1\<rparr>)
      else b\<lparr>totalCalls := totalCalls b + 1\<rparr>)"

text \<open>Five calls in a row whose every attempt fails.\<close>

definition five_failures :: "nat event list" where
  "five_failures =
     [Call (failing_env 1000 2000) ''get_sessions'', Call (failing_env 3000 4000) ''get_sessions'',
      Call (failing_env 5000 6000) ''get_sessions'', Call (failing_env 7000 8000) ''get_sessions'',
      Call (failing_env 9000 10000) ''get_sessions'']"

text \<open>
  Example histories on a breaker with the default configuration: five failing calls, then a
  successful call long after the monitoring window has passed (\<open>recovering_history\<close>) or
  shortly after the reset timeout (\<open>probing_history\<close>).
\<close>

definition recovering_history :: "nat event list" where
  "recovering_history = five_failures @ [Call (healthy_env 400000 400100) ''get_sessions'']"

definition probing_history :: "nat event list" where
  "probing_history = five_failures @ [Call (healthy_env 80000 80100) ''get_sessions'']"

definition four_failures :: "nat event list" where
  "four_failures = butlast five_failures"

definition closing_history :: "nat event list" where
  "closing_history = probing_history @ [Call (healthy_env 81000 81100) ''get_sessions'']"

definition example_breaker :: "nat event list \<Rightarrow> DatabaseCircuitBreaker" where
  "example_breaker evs = run_events evs (new_breaker DEFAULT_CONFIG 1)"

text \<open>An open breaker has recorded the time of a failure, at a non-zero clock reading.\<close>

definition open_has_failure_time :: "DatabaseCircuitBreaker \<Rightarrow> bool" where
  "open_has_failure_time b =
     (state b = OPEN \<longrightarrow> (\<exists>lf. lastFailureTime b = Some lf \<and> lf \<noteq> 0))"

section \<open>JavaScript values\<close>

text \<open>
  The stored session data is JSON. Numbers are modelled as integers (the timestamps of the
  store are epoch milliseconds); an object is the list of its properties, each key once.
  A property read that finds nothing gives \<^verbatim>\<open>undefined\<close>, modelled as \<open>None\<close>.
\<close>

datatype json =
    JNull
  | JBool bool
  | JNum int
  | JStr string
  | JArr "json list"
  | JObj "(string \<times> json) list"

datatype js_type = TObject | TBoolean | TNumber | TString | TUndefined

fun typeof :: "json \<Rightarrow> js_type" where
  "typeof JNull = TObject"
| "typeof (JBool b) = TBoolean"
| "typeof (JNum n) = TNumber"
| "typeof (JStr s) = TString"
| "typeof (JArr xs) = TObject"
| "typeof (JObj kvs) = TObject"

fun typeof_name :: "js_type \<Rightarrow> string" where
  "typeof_name TObject = ''object''"
| "typeof_name TBoolean = ''boolean''"
| "typeof_name TNumber = ''number''"
| "typeof_name TString = ''string''"
| "typeof_name TUndefined = ''undefined''"

fun truthy :: "json \<Rightarrow> bool" where
  "truthy JNull = False"
| "truthy (JBool b) = b"
| "truthy (JNum n) = (n \<noteq> 0)"
| "truthy (JStr s) = (s \<noteq> [])"
| "truthy (JArr xs) = True"
| "truthy (JObj kvs) = True"

definition falsy :: "json \<Rightarrow> bool" where
  "falsy v = (\<not> truthy v)"

text \<open>\<^verbatim>\<open>!v\<close> on the result of a property read, and on an optional string.\<close>

definition falsy_opt :: "json option \<Rightarrow> bool" where
  "falsy_opt v = (case v of None \<Rightarrow> True | Some x \<Rightarrow> falsy x)"

definition falsy_string :: "string option \<Rightarrow> bool" where
  "falsy_string v = (case v of None \<Rightarrow> True | Some s \<Rightarrow> s = [])"

fun isArray :: "json \<Rightarrow> bool" where
  "isArray (JArr xs) = True"
| "isArray v = False"

text \<open>
  Reading one of the properties the code reads (\<^verbatim>\<open>id\<close>, \<^verbatim>\<open>messages\<close>, \<^verbatim>\<open>role\<close>, ...)
  from a value that is not \<^verbatim>\<open>null\<close>: only an object can have it.
\<close>

fun property :: "json \<Rightarrow> string \<Rightarrow> json option" where
  "property (JObj kvs) k = map_of kvs k"
| "property v k = None"

text \<open>\<^verbatim>\<open>x || d\<close> on an optional string: the empty string is falsy too.\<close>

definition or_default :: "string option \<Rightarrow> string \<Rightarrow> string" where
  "or_default x d = (case x of None \<Rightarrow> d | Some s \<Rightarrow> if s = [] then d else s)"

definition show_int :: "int \<Rightarrow> string" where
  "show_int i = (if i < 0 then CHR ''-'' # show_nat (nat (- i)) else show_nat (nat i))"

fun join :: "string \<Rightarrow> string list \<Rightarrow> string" where
  "join sep [] = []"
| "join sep [x] = x"
| "join sep (x # y # ys) = x @ sep @ join sep (y # ys)"

text \<open>
  The library functions the code calls, and the clock. \<open>json_parse\<close> is \<^verbatim>\<open>JSON.parse\<close>
  (\<open>Inl\<close> the message of its \<^verbatim>\<open>SyntaxError\<close>), \<open>date_parse\<close> is \<^verbatim>\<open>Date.parse\<close> (\<open>None\<close> for
  \<^verbatim>\<open>NaN\<close>), \<open>iso_format\<close> renders a valid time value as \<^verbatim>\<open>toISOString\<close> does,
  \<open>stringify_length\<close> is the length of \<^verbatim>\<open>JSON.stringify\<close>'s result, \<open>date_value\<close> is the
  time value of \<^verbatim>\<open>new Date(v)\<close> (\<open>None\<close> for an invalid date), \<open>sort_dates\<close> is the
  array sort by time value, \<open>number_string\<close> is the conversion of a number to a string
  (decimal digits, or exponent notation from 1e21 on), and \<open>clock\<close> is \<^verbatim>\<open>Date.now()\<close>: a
  synchronous function reads the clock once.
\<close>

record runtime =
  json_parse :: "string \<Rightarrow> string + json"
  date_parse :: "string \<Rightarrow> int option"
  iso_format :: "int \<Rightarrow> string"
  stringify_length :: "json \<Rightarrow> nat"
  date_value :: "json \<Rightarrow> int option"
  sort_dates :: "int option list \<Rightarrow> int option list"
  number_string :: "int \<Rightarrow> string"
  clock :: int

text \<open>
  A value inside a template string (\<^verbatim>\<open>ToString\<close>); \<open>None\<close> is the \<^verbatim>\<open>TypeError\<close> of a
  value that cannot be converted. A parsed object has no callable property of its own, so
  an object with an own property \<^verbatim>\<open>toString\<close> cannot be converted; any other object is
  rendered by \<^verbatim>\<open>Object.prototype.toString\<close>. An array is the join of its elements, with
  \<^verbatim>\<open>null\<close> rendered empty.
\<close>

fun js_string :: "runtime \<Rightarrow> json \<Rightarrow> string option"
  and js_join :: "runtime \<Rightarrow> json list \<Rightarrow> string option" where
  "js_string rt JNull = Some ''null''"
| "js_string rt (JBool b) = Some (if b then ''true'' else ''false'')"
| "js_string rt (JNum n) = Some (number_string rt n)"
| "js_string rt (JStr s) = Some s"
| "js_string rt (JArr xs) = js_join rt xs"
| "js_string rt (JObj kvs) =
     (if map_of kvs ''toString'' = None then Some ''[object Object]'' else None)"
| "js_join rt [] = Some []"
| "js_join rt (x # xs) =
     (case (if x = JNull then Some [] else js_string rt x) of
        None \<Rightarrow> None
      | Some a \<Rightarrow>
          if xs = [] then Some a
          else (case js_join rt xs of None \<Rightarrow> None | Some b \<Rightarrow> Some (a @ '','' @ b)))"

definition js_string_opt :: "runtime \<Rightarrow> json option \<Rightarrow> string option" where
  "js_string_opt rt v = (case v of None \<Rightarrow> Some ''undefined'' | Some x \<Rightarrow> js_string rt x)"

definition CANNOT_CONVERT :: string where
  "CANNOT_CONVERT = ''Cannot convert object to primitive value''"

text \<open>
  \<^verbatim>\<open>new Date(n).toISOString()\<close>: a time value beyond 8.64e15 milliseconds from the epoch
  is an invalid date, and \<^verbatim>\<open>toISOString\<close> throws a \<^verbatim>\<open>RangeError\<close> on it.
\<close>

definition toISOString :: "runtime \<Rightarrow> int \<Rightarrow> string + string" where
  "toISOString rt n =
     (if \<bar>n\<bar> \<le> 8640000000000000 then Inr (iso_format rt n) else Inl ''Invalid time value'')"

section \<open>SessionDataParser\<close>

record ChatMessage =
  cm_role :: string
  cm_content :: string
  cm_timestamp :: "int option"

record SessionMetadata =
  messageCount :: nat
  totalCharacters :: nat
  userMessageCount :: nat
  assistantMessageCount :: nat
  firstMessageTimestamp :: "int option"
  lastMessageTimestamp :: "int option"

record ParsedSession =
  ps_id :: string
  ps_messages :: "ChatMessage list"
  ps_customTitle :: "string option"
  ps_createdAt :: "string option"
  ps_lastModified :: "string option"
  ps_metadata :: "SessionMetadata option"

record ParsingStats =
  totalSessions :: nat
  validSessions :: nat
  invalidSessions :: nat
  totalMessages :: nat
  processingTime :: int

record ParseResult =
  pr_success :: bool
  pr_data :: "ParsedSession list option"
  pr_error :: "string option"
  pr_warnings :: "string list option"
  pr_stats :: "ParsingStats option"

text \<open>The result shape of the private parsing steps, for the data \<open>'d\<close> of each.\<close>

record 'd StepResult =
  sr_success :: bool
  sr_data :: "'d option"
  sr_error :: "string option"
  sr_warnings :: "string list option"

definition step_failed :: "string \<Rightarrow> string list \<Rightarrow> 'd StepResult" where
  "step_failed e ws = \<lparr>sr_success = False, sr_data = None, sr_error = Some e, sr_warnings = Some ws\<rparr>"

text \<open>\<^verbatim>\<open>warnings.length > 0 ? warnings : undefined\<close>\<close>

definition nonempty_or_undefined :: "string list \<Rightarrow> string list option" where
  "nonempty_or_undefined ws = (if length ws > 0 then Some ws else None)"

text \<open>\<^verbatim>\<open>...(r.warnings || [])\<close>\<close>

definition warnings_or_empty :: "string list option \<Rightarrow> string list" where
  "warnings_or_empty ws = (case ws of None \<Rightarrow> [] | Some l \<Rightarrow> l)"

record ValidationOptions =
  strictMode :: bool
  allowEmptySessions :: bool
  validateTimestamps :: bool
  requireSessionId :: bool

definition DEFAULT_VALIDATION_OPTIONS :: ValidationOptions where
  "DEFAULT_VALIDATION_OPTIONS =
     \<lparr>strictMode = True, allowEmptySessions = False, validateTimestamps = True,
      requireSessionId = True\<rparr>"

text \<open>The timestamp of a raw message, with the warnings its parsing adds.\<close>

definition message_timestamp :: "runtime \<Rightarrow> json option \<Rightarrow> int option \<times> string list" where
  "message_timestamp rt ts =
     (case ts of
        None \<Rightarrow> (None, [])
      | Some (JNum n) \<Rightarrow> (Some n, [])
      | Some (JStr s) \<Rightarrow>
          (case date_parse rt s of
             Some parsed \<Rightarrow> (Some parsed, [])
           | None \<Rightarrow> (None, [''Invalid timestamp format: '' @ s]))
      | Some v \<Rightarrow>
          (None, [''Timestamp is not a number or string: '' @ typeof_name (typeof v)]))"

definition timestamp_warnings :: "runtime \<Rightarrow> ValidationOptions \<Rightarrow> int option \<Rightarrow> string list" where
  "timestamp_warnings rt opts timestamp =
     (case timestamp of
        None \<Rightarrow> []
      | Some t \<Rightarrow>
          if validateTimestamps opts then
            (let oneYearAgo = clock rt - 365 * 24 * 60 * 60 * 1000
             in if t > clock rt then [''Timestamp is in the future'']
                else if t < oneYearAgo then [''Timestamp is older than one year'']
                else [])
          else [])"

definition parseIndividualMessage ::
  "runtime \<Rightarrow> ValidationOptions \<Rightarrow> json \<Rightarrow> nat \<Rightarrow> ChatMessage StepResult" where
  "parseIndividualMessage rt opts messageData index =
     (if falsy messageData \<or> typeof messageData \<noteq> TObject
      then step_failed ''Message data is not an object'' []
      else
        let role = property messageData ''role''
        in if falsy_opt role
                \<or> (role \<noteq> Some (JStr ''user'') \<and> role \<noteq> Some (JStr ''assistant''))
           then
             (case js_string_opt rt role of
                Some text \<Rightarrow> step_failed (''Invalid or missing role: '' @ text) []
              | None \<Rightarrow> step_failed (''Failed to parse message: '' @ CANNOT_CONVERT) [])
           else
             (case property messageData ''content'' of
                Some (JStr content) \<Rightarrow>
                  let (timestamp, ws1) = message_timestamp rt (property messageData ''timestamp'');
                      ws = ws1 @ timestamp_warnings rt opts timestamp
                  in \<lparr>sr_success = True,
                      sr_data = Some \<lparr>cm_role = (if role = Some (JStr ''user'') then ''user''
                                                  else ''assistant''),
                                       cm_content = content,
                                       cm_timestamp = timestamp\<rparr>,
                      sr_error = None, sr_warnings = nonempty_or_undefined ws\<rparr>
              | _ \<Rightarrow> step_failed ''Message content must be a string'' []))"

text \<open>The loop of \<^verbatim>\<open>parseMessages\<close> from index \<open>i\<close> on.\<close>

fun parseMessages_from ::
  "runtime \<Rightarrow> ValidationOptions \<Rightarrow> json list \<Rightarrow> nat \<Rightarrow> ChatMessage list \<Rightarrow> string list
     \<Rightarrow> ChatMessage list StepResult" where
  "parseMessages_from rt opts [] i parsedMessages warnings =
     \<lparr>sr_success = True, sr_data = Some parsedMessages, sr_error = None,
      sr_warnings = nonempty_or_undefined warnings\<rparr>"
| "parseMessages_from rt opts (m # ms) i parsedMessages warnings =
     (let messageResult = parseIndividualMessage rt opts m i
      in case (sr_success messageResult, sr_data messageResult) of
           (True, Some msg) \<Rightarrow>
             parseMessages_from rt opts ms (i + 1) (parsedMessages @ [msg]) warnings
         | _ \<Rightarrow>
             if strictMode opts then
               step_failed
                 (or_default (sr_error messageResult) (''Invalid message at index '' @ show_nat i))
                 (warnings @ warnings_or_empty (sr_warnings messageResult))
             else
               parseMessages_from rt opts ms (i + 1) parsedMessages
                 (warnings @ warnings_or_empty (sr_warnings messageResult)
                  @ [''Skipped invalid message at index '' @ show_nat i @ '': ''
                     @ (case sr_error messageResult of None \<Rightarrow> ''undefined'' | Some e \<Rightarrow> e)]))"

definition parseMessages ::
  "runtime \<Rightarrow> ValidationOptions \<Rightarrow> json \<Rightarrow> ChatMessage list StepResult" where
  "parseMessages rt opts messagesData =
     (case messagesData of
        JArr ms \<Rightarrow> parseMessages_from rt opts ms 0 [] []
      | _ \<Rightarrow> step_failed ''Messages data is not an array'' [])"

text \<open>A property that is a non-empty string.\<close>

definition string_property :: "json \<Rightarrow> string \<Rightarrow> string option" where
  "string_property v k =
     (case property v k of Some (JStr s) \<Rightarrow> if s \<noteq> [] then Some s else None | _ \<Rightarrow> None)"

definition extractSessionId :: "runtime \<Rightarrow> ValidationOptions \<Rightarrow> json \<Rightarrow> nat \<Rightarrow> string option" where
  "extractSessionId rt opts sessionData index =
     (case string_property sessionData ''id'' of
        Some s \<Rightarrow> Some s
      | None \<Rightarrow>
          (case string_property sessionData ''sessionId'' of
             Some s \<Rightarrow> Some s
           | None \<Rightarrow>
               if \<not> requireSessionId opts
               then Some (''generated_session_'' @ show_nat index @ ''_''
                          @ number_string rt (clock rt))
               else None))"

definition extractCustomTitle :: "json \<Rightarrow> string option" where
  "extractCustomTitle sessionData =
     (case string_property sessionData ''customTitle'' of
        Some s \<Rightarrow> Some s
      | None \<Rightarrow> string_property sessionData ''title'')"

text \<open>One of the two session timestamps; \<open>Inl\<close> is the message of a thrown error.\<close>

definition session_timestamp :: "runtime \<Rightarrow> json option \<Rightarrow> string + string option" where
  "session_timestamp rt v =
     (case v of
        Some (JStr s) \<Rightarrow> Inr (if s \<noteq> [] then Some s else None)
      | Some (JNum n) \<Rightarrow>
          if n \<noteq> 0 then (case toISOString rt n of Inl e \<Rightarrow> Inl e | Inr s \<Rightarrow> Inr (Some s))
          else Inr None
      | _ \<Rightarrow> Inr None)"

definition parseTimestamps :: "runtime \<Rightarrow> json \<Rightarrow> string + (string option \<times> string option)" where
  "parseTimestamps rt sessionData =
     (case session_timestamp rt (property sessionData ''createdAt'') of
        Inl e \<Rightarrow> Inl e
      | Inr createdAt \<Rightarrow>
          (case session_timestamp rt (property sessionData ''lastModified'') of
             Inl e \<Rightarrow> Inl e
           | Inr lastModified \<Rightarrow> Inr (createdAt, lastModified)))"

text \<open>\<^verbatim>\<open>!t\<close> on an optional number.\<close>

definition unset :: "int option \<Rightarrow> bool" where
  "unset t = (case t of None \<Rightarrow> True | Some v \<Rightarrow> v = 0)"

fun metadata_loop :: "ChatMessage list \<Rightarrow> SessionMetadata \<Rightarrow> SessionMetadata" where
  "metadata_loop [] md = md"
| "metadata_loop (message # rest) md =
     (let md1 = md\<lparr>totalCharacters := totalCharacters md + length (cm_content message)\<rparr>;
          md2 = (if cm_role message = ''user''
                 then md1\<lparr>userMessageCount := userMessageCount md1 + 1\<rparr>
                 else if cm_role message = ''assistant''
                 then md1\<lparr>assistantMessageCount := assistantMessageCount md1 + 1\<rparr>
                 else md1);
          md3 = (case cm_timestamp message of
                   None \<Rightarrow> md2
                 | Some t \<Rightarrow>
                     if t = 0 then md2
                     else
                       let md' = (if unset (firstMessageTimestamp md2)
                                     \<or> t < the (firstMessageTimestamp md2)
                                  then md2\<lparr>firstMessageTimestamp := Some t\<rparr> else md2)
                       in if unset (lastMessageTimestamp md')
                             \<or> t > the (lastMessageTimestamp md')
                          then md'\<lparr>lastMessageTimestamp := Some t\<rparr> else md')
      in metadata_loop rest md3)"

definition calculateSessionMetadata :: "ChatMessage list \<Rightarrow> SessionMetadata" where
  "calculateSessionMetadata messages =
     metadata_loop messages
       \<lparr>messageCount = length messages, totalCharacters = 0, userMessageCount = 0,
        assistantMessageCount = 0, firstMessageTimestamp = None, lastMessageTimestamp = None\<rparr>"

definition parseIndividualSession ::
  "runtime \<Rightarrow> ValidationOptions \<Rightarrow> json \<Rightarrow> nat \<Rightarrow> ParsedSession StepResult" where
  "parseIndividualSession rt opts sessionData index =
     (if falsy sessionData \<or> typeof sessionData \<noteq> TObject
      then step_failed ''Session data is not an object'' []
      else
        let sessionId = extractSessionId rt opts sessionData index
        in if requireSessionId opts \<and> falsy_string sessionId
           then step_failed ''Session ID is required but not found'' []
           else
             let messagesResult =
                   parseMessages rt opts
                     (case property sessionData ''messages'' of
                        None \<Rightarrow> JArr []
                      | Some v \<Rightarrow> if truthy v then v else JArr [])
             in case (sr_success messagesResult, sr_data messagesResult) of
                  (True, Some msgs) \<Rightarrow>
                    if \<not> allowEmptySessions opts \<and> length msgs = 0
                    then step_failed ''Empty sessions are not allowed'' []
                    else
                      (case parseTimestamps rt sessionData of
                         Inl e \<Rightarrow> step_failed (''Failed to parse session: '' @ e) []
                       | Inr (createdAt, lastModified) \<Rightarrow>
                           \<lparr>sr_success = True,
                            sr_data = Some
                              \<lparr>ps_id = or_default sessionId (''session_'' @ show_nat index),
                               ps_messages = msgs,
                               ps_customTitle = extractCustomTitle sessionData,
                               ps_createdAt = createdAt,
                               ps_lastModified = lastModified,
                               ps_metadata = Some (calculateSessionMetadata msgs)\<rparr>,
                            sr_error = None, sr_warnings = None\<rparr>)
                | _ \<Rightarrow>
                    \<lparr>sr_success = False, sr_data = None, sr_error = sr_error messagesResult,
                     sr_warnings = Some (warnings_or_empty (sr_warnings messagesResult))\<rparr>)"

definition createEmptyStats :: "int \<Rightarrow> ParsingStats" where
  "createEmptyStats t =
     \<lparr>totalSessions = 0, validSessions = 0, invalidSessions = 0, totalMessages = 0,
      processingTime = t\<rparr>"

text \<open>The loop of \<^verbatim>\<open>parseSessionData\<close> from index \<open>i\<close> on.\<close>

fun parseSessions_from ::
  "runtime \<Rightarrow> ValidationOptions \<Rightarrow> json list \<Rightarrow> nat \<Rightarrow> ParsedSession list \<Rightarrow> nat \<Rightarrow> string list
     \<Rightarrow> ParsedSession list \<times> nat \<times> string list" where
  "parseSessions_from rt opts [] i parsedSessions invalidSessionCount warnings =
     (parsedSessions, invalidSessionCount, warnings)"
| "parseSessions_from rt opts (s # ss) i parsedSessions invalidSessionCount warnings =
     (let sessionResult = parseIndividualSession rt opts s i
      in case (sr_success sessionResult, sr_data sessionResult) of
           (True, Some session) \<Rightarrow>
             parseSessions_from rt opts ss (i + 1) (parsedSessions @ [session])
               invalidSessionCount warnings
         | _ \<Rightarrow>
             parseSessions_from rt opts ss (i + 1) parsedSessions (invalidSessionCount + 1)
               (warnings @ warnings_or_empty (sr_warnings sessionResult)
                @ (case sr_error sessionResult of
                     None \<Rightarrow> []
                   | Some e \<Rightarrow>
                       if e = [] then [] else [''Session '' @ show_nat i @ '': '' @ e])))"

definition parseSessionData :: "runtime \<Rightarrow> ValidationOptions \<Rightarrow> json \<Rightarrow> ParseResult" where
  "parseSessionData rt opts rawData =
     (if falsy rawData then
        \<lparr>pr_success = False, pr_data = None, pr_error = Some ''No data provided for parsing'',
         pr_warnings = Some [], pr_stats = Some (createEmptyStats 0)\<rparr>
      else if \<not> isArray rawData \<and> typeof rawData \<noteq> TObject then
        \<lparr>pr_success = False, pr_data = None,
         pr_error = Some ''Raw data is not in expected format (array or object)'',
         pr_warnings = Some [], pr_stats = Some (createEmptyStats 0)\<rparr>
      else
        let (sessionsArray, warnings0) =
              (case rawData of
                 JArr xs \<Rightarrow> (xs, [])
               | _ \<Rightarrow> ([rawData], [''Single session object converted to array'']));
            (parsedSessions, invalidSessionCount, warnings) =
              parseSessions_from rt opts sessionsArray 0 [] 0 warnings0;
            stats = \<lparr>totalSessions = length sessionsArray,
                     validSessions = length parsedSessions,
                     invalidSessions = invalidSessionCount,
                     totalMessages = sum_list (map (\<lambda>session. length (ps_messages session))
                                                  parsedSessions),
                     processingTime = 0\<rparr>;
            success = (length parsedSessions > 0)
        in \<lparr>pr_success = success, pr_data = Some parsedSessions,
            pr_error = (if success then None else Some ''No valid sessions could be parsed''),
            pr_warnings = nonempty_or_undefined warnings, pr_stats = Some stats\<rparr>)"

subsection \<open>Notions used to state the parser's properties\<close>

text \<open>The checks of \<^verbatim>\<open>parseIndividualMessage\<close> that decide whether a message is accepted.\<close>

definition message_ok :: "json \<Rightarrow> bool" where
  "message_ok m =
     (truthy m \<and> typeof m = TObject
      \<and> (property m ''role'' = Some (JStr ''user'') \<or> property m ''role'' = Some (JStr ''assistant''))
      \<and> (case property m ''content'' of Some (JStr c) \<Rightarrow> True | _ \<Rightarrow> False))"

text \<open>A session timestamp that \<^verbatim>\<open>toISOString\<close> can render: not a number beyond the range of
  valid dates.\<close>

definition time_value_ok :: "json option \<Rightarrow> bool" where
  "time_value_ok v = (case v of Some (JNum n) \<Rightarrow> \<bar>n\<bar> \<le> 8640000000000000 | _ \<Rightarrow> True)"

text \<open>The message a raw message parses to.\<close>

definition parsed_message :: "runtime \<Rightarrow> ValidationOptions \<Rightarrow> json \<Rightarrow> ChatMessage" where
  "parsed_message rt opts m = the (sr_data (parseIndividualMessage rt opts m 0))"

text \<open>
  Example data: a runtime whose \<open>json_parse\<close> knows three texts and whose numbers are
  rendered in decimal digits, the lenient options, a
  session with a system message and a user message, and the raw input of the scenario.
\<close>

definition example_runtime :: runtime where
  "example_runtime =
     \<lparr>json_parse = (\<lambda>s. if s = ''[]'' then Inr (JArr [])
                         else if s = ''{}'' then Inr (JObj [])
                         else if s = ''[{},{}]'' then Inr (JArr [JObj [], JObj []])
                         else Inl ''Unexpected token''),
      date_parse = (\<lambda>s. None),
      iso_format = (\<lambda>n. ''2023-11-14T22:13:20.000Z''),
      stringify_length = (\<lambda>j. 2),
      date_value = (\<lambda>j. None),
      sort_dates = (\<lambda>ds. ds),
      number_string = show_int,
      clock = 1700000000000\<rparr>"

definition lenient_options :: ValidationOptions where
  "lenient_options = DEFAULT_VALIDATION_OPTIONS\<lparr>strictMode := False\<rparr>"

definition system_message :: json where
  "system_message = JObj [(''role'', JStr ''system''), (''content'', JStr ''be brief'')]"

definition user_message :: json where
  "user_message = JObj [(''role'', JStr ''user''), (''content'', JStr ''hi'')]"

definition mixed_session :: "json \<Rightarrow> json" where
  "mixed_session created =
     JObj [(''id'', JStr ''s1''), (''createdAt'', created),
           (''messages'', JArr [system_message, user_message])]"

definition raw_s1 :: json where
  "raw_s1 =
     JArr [JObj [(''id'', JStr ''s1''),
                 (''messages'',
                  JArr [JObj [(''role'', JStr ''user''), (''content'', JStr ''hi'')],
                        JObj [(''role'', JStr ''assistant''), (''content'', JStr ''hello'')]])]]"

section \<open>SessionQueryEngine\<close>

text \<open>
  The connection manager and the file system are outside the model: what
  \<^verbatim>\<open>getCurrentWorkspaceConnection\<close> returns is an input. A connection is a handle, and
  \<open>stores\<close> tells for each handle what a statement on it meets at the time of the call: a
  database on which preparing and running a statement both throw (a closed connection), one
  on which running it throws, or the key/value table, which answers a key with no row, with
  a \<^verbatim>\<open>NULL\<close> value (\<open>Some None\<close>) or with a text. A prepared statement stays bound to the
  handle it was prepared on, and the engine caches it under a fixed name. Execution and
  processing times are differences of clock readings; where a function reads the clock once
  they are 0.
\<close>

type_synonym db_handle = nat

datatype database =
    Unusable string
  | Unreadable string
  | ItemTable "string \<Rightarrow> string option option"

datatype statement = Statement db_handle

record SessionQueryEngine =
  preparedStatements :: "string \<Rightarrow> statement option"

definition new_engine :: SessionQueryEngine where
  "new_engine = \<lparr>preparedStatements = (\<lambda>k. None)\<rparr>"


record ConnectionResult =
  conn_success :: bool
  conn_database :: "db_handle option"
  conn_error :: "string option"

record 'd SessionQueryResult =
  qr_success :: bool
  qr_data :: "'d option"
  qr_error :: "string option"
  qr_executionTime :: "int option"

record QueryOptions =
  qo_limit :: "int option"
  qo_offset :: "int option"
  qo_includeMetadata :: bool

record EngineMetadata =
  em_totalSessions :: nat
  em_latestSession :: "int option option"
  em_oldestSession :: "int option option"
  em_totalSize :: nat

record Pagination =
  pg_offset :: int
  pg_limit :: int
  pg_total :: nat

record SessionsData =
  sd_sessions :: "json list"
  sd_metadata :: "EngineMetadata option"
  sd_pagination :: Pagination

definition INTERACTIVE_SESSIONS_KEY :: string where
  "INTERACTIVE_SESSIONS_KEY = ''interactive.sessions''"

definition STATEMENT_KEY :: string where
  "STATEMENT_KEY = ''get_interactive_sessions''"

definition query_failed :: "string \<Rightarrow> json list SessionQueryResult" where
  "query_failed msg =
     \<lparr>qr_success = False, qr_data = None, qr_error = Some (''Database query failed: '' @ msg),
      qr_executionTime = None\<rparr>"

text \<open>
  The part of \<^verbatim>\<open>queryInteractiveSessionsRaw\<close> from \<^verbatim>\<open>statement.get\<close> on: the statement
  runs on the database it is bound to.
\<close>

definition run_statement ::
  "runtime \<Rightarrow> (db_handle \<Rightarrow> database) \<Rightarrow> statement \<Rightarrow> json list SessionQueryResult" where
  "run_statement rt stores st =
     (case st of Statement h \<Rightarrow>
        (case stores h of
           Unusable msg \<Rightarrow> query_failed msg
         | Unreadable msg \<Rightarrow> query_failed msg
         | ItemTable table \<Rightarrow>
             (case table INTERACTIVE_SESSIONS_KEY of
                Some (Some v) \<Rightarrow>
                  if v = [] then
                    \<lparr>qr_success = True, qr_data = Some [], qr_error = None,
                     qr_executionTime = None\<rparr>
                  else
                    (case json_parse rt v of
                       Inl msg \<Rightarrow>
                         \<lparr>qr_success = False, qr_data = None,
                          qr_error = Some (''Failed to parse session JSON data: '' @ msg),
                          qr_executionTime = None\<rparr>
                     | Inr (JArr sessions) \<Rightarrow>
                         \<lparr>qr_success = True, qr_data = Some sessions, qr_error = None,
                          qr_executionTime = None\<rparr>
                     | Inr _ \<Rightarrow>
                         \<lparr>qr_success = False, qr_data = None,
                          qr_error = Some ''Interactive sessions data is not in expected array format'',
                          qr_executionTime = None\<rparr>)
              | _ \<Rightarrow>
                  \<lparr>qr_success = True, qr_data = Some [], qr_error = None,
                   qr_executionTime = None\<rparr>)))"

text \<open>
  \<^verbatim>\<open>queryInteractiveSessionsRaw\<close>: a cached statement is run whatever database is handed
  in; otherwise one is prepared on the database handed in and cached, unless preparing
  throws.
\<close>

definition queryInteractiveSessionsRaw ::
  "runtime \<Rightarrow> (db_handle \<Rightarrow> database) \<Rightarrow> db_handle \<Rightarrow> SessionQueryEngine
     \<Rightarrow> json list SessionQueryResult \<times> SessionQueryEngine" where
  "queryInteractiveSessionsRaw rt stores db engine =
     (case preparedStatements engine STATEMENT_KEY of
        Some st \<Rightarrow> (run_statement rt stores st, engine)
      | None \<Rightarrow>
          (case stores db of
             Unusable msg \<Rightarrow> (query_failed msg, engine)
           | _ \<Rightarrow>
               (run_statement rt stores (Statement db),
                engine\<lparr>preparedStatements :=
                  (preparedStatements engine)(STATEMENT_KEY := Some (Statement db))\<rparr>)))"

text \<open>
  \<^verbatim>\<open>Array.prototype.slice(start, end)\<close> on integers: a negative index counts from the end,
  and both are clamped to the array.
\<close>

definition js_slice :: "'a list \<Rightarrow> int \<Rightarrow> int \<Rightarrow> 'a list" where
  "js_slice xs start fin =
     (let len = int (length xs);
          k = (if start < 0 then max (len + start) 0 else min start len);
          final = (if fin < 0 then max (len + fin) 0 else min fin len)
      in take (nat (final - k)) (drop (nat k) xs))"

text \<open>\<^verbatim>\<open>n || d\<close> on an optional number: 0 is falsy too.\<close>

definition num_or :: "int option \<Rightarrow> int \<Rightarrow> int" where
  "num_or n d = (case n of None \<Rightarrow> d | Some v \<Rightarrow> if v = 0 then d else v)"

text \<open>
  The loop of the engine's \<^verbatim>\<open>calculateSessionMetadata\<close>: the size so far and the dates so
  far. Reading \<^verbatim>\<open>createdAt\<close> from \<^verbatim>\<open>null\<close> throws a \<^verbatim>\<open>TypeError\<close>. \<^verbatim>\<open>new Date(v)\<close>
  throws on a value that cannot be converted to a primitive; the loop catches that and
  skips the date.
\<close>

fun engine_metadata_loop ::
  "runtime \<Rightarrow> json list \<Rightarrow> nat \<Rightarrow> int option list \<Rightarrow> string + (nat \<times> int option list)" where
  "engine_metadata_loop rt [] totalSize dates = Inr (totalSize, dates)"
| "engine_metadata_loop rt (session # rest) totalSize dates =
     (if session = JNull
      then Inl ''Cannot read properties of null (reading 'createdAt')''
      else engine_metadata_loop rt rest (totalSize + stringify_length rt session)
             (case property session ''createdAt'' of
                None \<Rightarrow> dates
              | Some v \<Rightarrow>
                  if truthy v \<and> js_string rt v \<noteq> None then dates @ [date_value rt v]
                  else dates))"

definition engine_calculateSessionMetadata :: "runtime \<Rightarrow> json list \<Rightarrow> string + EngineMetadata" where
  "engine_calculateSessionMetadata rt sessions =
     (if length sessions = 0 then
        Inr \<lparr>em_totalSessions = 0, em_latestSession = None, em_oldestSession = None,
             em_totalSize = 0\<rparr>
      else
        (case engine_metadata_loop rt sessions 0 [] of
           Inl e \<Rightarrow> Inl e
         | Inr (totalSize, dates) \<Rightarrow>
             (case sort_dates rt dates of
                [] \<Rightarrow>
                  Inr \<lparr>em_totalSessions = length sessions, em_latestSession = None,
                       em_oldestSession = None, em_totalSize = totalSize\<rparr>
              | d # ds \<Rightarrow>
                  Inr \<lparr>em_totalSessions = length sessions, em_latestSession = Some (last (d # ds)),
                       em_oldestSession = Some d, em_totalSize = totalSize\<rparr>)))"

definition getInteractiveSessions ::
  "runtime \<Rightarrow> (db_handle \<Rightarrow> database) \<Rightarrow> ConnectionResult \<Rightarrow> QueryOptions \<Rightarrow> SessionQueryEngine
     \<Rightarrow> SessionsData SessionQueryResult \<times> SessionQueryEngine" where
  "getInteractiveSessions rt stores connectionResult options engine =
     (case (conn_success connectionResult, conn_database connectionResult) of
        (True, Some db) \<Rightarrow>
          (case queryInteractiveSessionsRaw rt stores db engine of
             (rawData, engine') \<Rightarrow>
               (case (qr_success rawData, qr_data rawData) of
                  (True, Some raw) \<Rightarrow>
                    let processedData =
                          (if num_or (qo_offset options) 0 \<noteq> 0 \<or> num_or (qo_limit options) 0 \<noteq> 0
                           then
                             let offset = num_or (qo_offset options) 0;
                                 limit = num_or (qo_limit options) (int (length raw))
                             in js_slice raw offset (offset + limit)
                           else raw);
                        pagination =
                          \<lparr>pg_offset = num_or (qo_offset options) 0,
                           pg_limit = num_or (qo_limit options) (int (length processedData)),
                           pg_total = length raw\<rparr>
                    in if qo_includeMetadata options then
                         (case engine_calculateSessionMetadata rt raw of
                            Inl e \<Rightarrow>
                              (\<lparr>qr_success = False, qr_data = None,
                                qr_error = Some (''Query execution failed: '' @ e),
                                qr_executionTime = Some 0\<rparr>, engine')
                          | Inr metadata \<Rightarrow>
                              (\<lparr>qr_success = True,
                                qr_data = Some \<lparr>sd_sessions = processedData,
                                                 sd_metadata = Some metadata,
                                                 sd_pagination = pagination\<rparr>,
                                qr_error = None, qr_executionTime = Some 0\<rparr>, engine'))
                       else
                         (\<lparr>qr_success = True,
                           qr_data = Some \<lparr>sd_sessions = processedData, sd_metadata = None,
                                            sd_pagination = pagination\<rparr>,
                           qr_error = None, qr_executionTime = Some 0\<rparr>, engine')
                | _ \<Rightarrow>
                    (\<lparr>qr_success = False, qr_data = None, qr_error = qr_error rawData,
                      qr_executionTime = Some 0\<rparr>, engine')))
      | _ \<Rightarrow>
          (\<lparr>qr_success = False, qr_data = None,
            qr_error = Some (or_default (conn_error connectionResult)
                               ''Failed to establish database connection''),
            qr_executionTime = Some 0\<rparr>, engine))"

text \<open>The database the engine's statement reads when the engine is handed \<open>db\<close>.\<close>

definition statement_handle :: "SessionQueryEngine \<Rightarrow> db_handle \<Rightarrow> db_handle" where
  "statement_handle engine db =
     (case preparedStatements engine STATEMENT_KEY of
        None \<Rightarrow> db
      | Some (Statement h) \<Rightarrow> h)"

section \<open>DatabaseReader\<close>

record DatabaseReaderConfig =
  enableCircuitBreaker :: bool
  strictParsing :: bool
  cacheConnections :: bool

definition DEFAULT_READER_CONFIG :: DatabaseReaderConfig where
  "DEFAULT_READER_CONFIG =
     \<lparr>enableCircuitBreaker = True, strictParsing = True, cacheConnections = True\<rparr>"

record ReaderMetadata =
  rm_totalSessions :: nat
  rm_processingTime :: int
  rm_circuitBreakerState :: "CircuitState option"

record DatabaseReaderResult =
  rr_success :: bool
  rr_sessions :: "ParsedSession list option"
  rr_error :: "string option"
  rr_metadata :: "ReaderMetadata option"

text \<open>
  The reader's state that its session operations use: its configuration, its query engine,
  the options of its parser and its breaker.
\<close>

record DatabaseReader =
  reader_config :: DatabaseReaderConfig
  queryEngine :: SessionQueryEngine
  dataParser :: ValidationOptions
  circuitBreaker :: DatabaseCircuitBreaker

definition new_reader :: "DatabaseReaderConfig \<Rightarrow> int \<Rightarrow> DatabaseReader" where
  "new_reader cfg t =
     \<lparr>reader_config = cfg,
      queryEngine = new_engine,
      dataParser = \<lparr>strictMode = strictParsing cfg, allowEmptySessions = False,
                    validateTimestamps = True, requireSessionId = False\<rparr>,
      circuitBreaker = new_breaker DEFAULT_CONFIG t\<rparr>"

definition reader_failed :: "string \<Rightarrow> DatabaseReaderResult" where
  "reader_failed e =
     \<lparr>rr_success = False, rr_sessions = None, rr_error = Some e,
      rr_metadata = Some \<lparr>rm_totalSessions = 0, rm_processingTime = 0,
                          rm_circuitBreakerState = None\<rparr>\<rparr>"

text \<open>\<^verbatim>\<open>getSessionsInternal\<close>, with the engine as the query leaves it.\<close>

definition getSessionsInternal ::
  "runtime \<Rightarrow> (db_handle \<Rightarrow> database) \<Rightarrow> ConnectionResult \<Rightarrow> DatabaseReader
     \<Rightarrow> DatabaseReaderResult \<times> SessionQueryEngine" where
  "getSessionsInternal rt stores connectionResult reader =
     (case getInteractiveSessions rt stores connectionResult
             \<lparr>qo_limit = None, qo_offset = None, qo_includeMetadata = True\<rparr>
             (queryEngine reader) of
        (queryResult, engine) \<Rightarrow>
          if \<not> qr_success queryResult
          then (reader_failed (or_default (qr_error queryResult) ''Failed to query sessions''),
                engine)
          else
            let parseResult =
                  parseSessionData rt (dataParser reader)
                    (JArr (case qr_data queryResult of None \<Rightarrow> [] | Some d \<Rightarrow> sd_sessions d))
            in if \<not> pr_success parseResult
               then (reader_failed (or_default (pr_error parseResult) ''Failed to parse sessions''),
                     engine)
               else
                 let sessions = (case pr_data parseResult of None \<Rightarrow> [] | Some l \<Rightarrow> l)
                 in (\<lparr>rr_success = True, rr_sessions = Some sessions, rr_error = None,
                      rr_metadata = Some \<lparr>rm_totalSessions = length sessions,
                                          rm_processingTime = 0,
                                          rm_circuitBreakerState = None\<rparr>\<rparr>, engine))"

text \<open>
  \<^verbatim>\<open>getSessions\<close>. The operation handed to the breaker is \<^verbatim>\<open>getSessionsInternal\<close>, which
  catches every error and so always resolves: the breaker invokes it at most once in a call,
  and the engine is as that invocation leaves it. \<open>rnd\<close>, \<open>t_call\<close> and \<open>t_settled\<close> are the
  random numbers and clock readings of the breaker's call.
\<close>

definition getSessions ::
  "runtime \<Rightarrow> (db_handle \<Rightarrow> database) \<Rightarrow> ConnectionResult \<Rightarrow> (nat \<Rightarrow> real) \<Rightarrow> int \<Rightarrow> int
     \<Rightarrow> DatabaseReader \<Rightarrow> DatabaseReaderResult \<times> DatabaseReader" where
  "getSessions rt stores connectionResult rnd t_call t_settled reader =
     (case getSessionsInternal rt stores connectionResult reader of
        (internal, engine) \<Rightarrow>
          if enableCircuitBreaker (reader_config reader) then
            (case execute \<lparr>operation = (\<lambda>k. Resolved internal),
                           random = rnd, now_call = t_call, now_settled = t_settled\<rparr>
                    ''get_sessions'' (circuitBreaker reader) of
               (circuitResult, tr, breaker) \<Rightarrow>
                 let sessions = (case cbr_data circuitResult of
                                   None \<Rightarrow> None
                                 | Some d \<Rightarrow> rr_sessions d)
                 in (\<lparr>rr_success = cbr_success circuitResult,
                      rr_sessions = sessions,
                      rr_error = cbr_error circuitResult,
                      rr_metadata = Some
                        \<lparr>rm_totalSessions = (case sessions of None \<Rightarrow> 0 | Some l \<Rightarrow> length l),
                         rm_processingTime = t_settled - t_call,
                         rm_circuitBreakerState = Some (cbr_circuitState circuitResult)\<rparr>\<rparr>,
                     reader\<lparr>circuitBreaker := breaker,
                            queryEngine := (if invocations tr = 0 then queryEngine reader
                                            else engine)\<rparr>))
          else (internal, reader\<lparr>queryEngine := engine\<rparr>))"

subsection \<open>Example stores\<close>

text \<open>
  A successful connection with a handle, a key/value table whose only row is the one of the
  sessions key, a table with no row, the world in which every handle leads to one database,
  and the options of a query for all sessions.
\<close>

definition connected :: "db_handle \<Rightarrow> ConnectionResult" where
  "connected db = \<lparr>conn_success = True, conn_database = Some db, conn_error = None\<rparr>"

definition table_of :: "string option \<Rightarrow> string \<Rightarrow> string option option" where
  "table_of v = (\<lambda>k. if k = INTERACTIVE_SESSIONS_KEY then Some v else None)"

definition table_with :: "string option \<Rightarrow> database" where
  "table_with v = ItemTable (table_of v)"

definition empty_table :: database where
  "empty_table = ItemTable (\<lambda>k. None)"

definition only_store :: "database \<Rightarrow> db_handle \<Rightarrow> database" where
  "only_store db = (\<lambda>h. db)"


text \<open>
  Two databases under the handles 1 and 2, the first with two sessions and the second with
  no row, and an engine that has run one query on the first.
\<close>

definition two_stores :: "db_handle \<Rightarrow> database" where
  "two_stores h = (if h = 1 then table_with (Some ''[{},{}]'') else empty_table)"

definition used_engine :: SessionQueryEngine where
  "used_engine = snd (queryInteractiveSessionsRaw example_runtime two_stores 1 new_engine)"

section \<open>WorkspaceResolver\<close>

text \<open>
  \<^verbatim>\<open>generateWorkspaceId\<close> composes three library functions: \<^verbatim>\<open>path.resolve\<close>,
  \<^verbatim>\<open>toLowerCase\<close> and the MD5 digest in hexadecimal. Paths are POSIX paths over ASCII
  characters. The digest function is a parameter: any function from strings to 128 bits.
\<close>

definition SEP :: char where
  "SEP = CHR ''/''"

text \<open>The segments of a path between its separators.\<close>

fun split_path :: "string \<Rightarrow> string list" where
  "split_path [] = [[]]"
| "split_path (c # cs) =
     (if c = SEP then [] # split_path cs
      else (case split_path cs of [] \<Rightarrow> [[c]] | s # ss \<Rightarrow> (c # s) # ss))"

text \<open>
  One step of the normalisation \<^verbatim>\<open>path.resolve\<close> performs: empty segments and \<open>.\<close> are
  dropped, \<open>..\<close> removes the segment before it, and is kept only where the path may rise
  above its start.
\<close>

definition normalize_step :: "bool \<Rightarrow> string list \<Rightarrow> string \<Rightarrow> string list" where
  "normalize_step allowAboveRoot res seg =
     (if seg = [] \<or> seg = ''.'' then res
      else if seg = ''..'' then
        (if res \<noteq> [] \<and> last res \<noteq> ''..'' then butlast res
         else if allowAboveRoot then res @ [''..''] else res)
      else res @ [seg])"

definition normalize_segments :: "bool \<Rightarrow> string list \<Rightarrow> string list" where
  "normalize_segments allowAboveRoot segs = foldl (normalize_step allowAboveRoot) [] segs"

definition isAbsolute :: "string \<Rightarrow> bool" where
  "isAbsolute p = (case p of [] \<Rightarrow> False | c # cs \<Rightarrow> c = SEP)"

text \<open>\<^verbatim>\<open>path.resolve(p)\<close> in a process whose working directory is \<open>cwd\<close>.\<close>

definition path_resolve :: "string \<Rightarrow> string \<Rightarrow> string" where
  "path_resolve cwd p =
     (let resolvedPath = (if isAbsolute p then p else cwd @ [SEP] @ p);
          resolvedAbsolute = (isAbsolute p \<or> isAbsolute cwd);
          normalized = join [SEP] (normalize_segments (\<not> resolvedAbsolute) (split_path resolvedPath))
      in if resolvedAbsolute then SEP # normalized
         else if normalized = [] then ''.'' else normalized)"

text \<open>\<^verbatim>\<open>toLowerCase\<close> on ASCII text.\<close>

definition lower_char :: "char \<Rightarrow> char" where
  "lower_char c =
     (let n = (of_char c :: nat) in if 65 \<le> n \<and> n \<le> 90 then char_of (n + 32) else c)"

definition toLowerCase :: "string \<Rightarrow> string" where
  "toLowerCase s = map lower_char s"

definition hex_digit :: "nat \<Rightarrow> char" where
  "hex_digit n = ''0123456789abcdef'' ! n"

text \<open>\<^verbatim>\<open>digest('hex')\<close>: the 32 half-bytes of the digest, the most significant first.\<close>

definition hex_of_digest :: "128 word \<Rightarrow> string" where
  "hex_of_digest w = map (\<lambda>i. hex_digit ((unat w div 16 ^ (31 - i)) mod 16)) [0..<32]"

definition generateWorkspaceId :: "(string \<Rightarrow> 128 word) \<Rightarrow> string \<Rightarrow> string \<Rightarrow> string" where
  "generateWorkspaceId hash cwd workspacePath =
     (let normalizedPath = toLowerCase (path_resolve cwd workspacePath)
      in take 32 (hex_of_digest (hash normalizedPath)))"

text \<open>A path without its trailing separators.\<close>

definition strip_trailing_seps :: "string \<Rightarrow> string" where
  "strip_trailing_seps p = rev (dropWhile (\<lambda>c. c = SEP) (rev p))"

text \<open>A digest function for examples; it is not MD5.\<close>

definition example_digest :: "string \<Rightarrow> 128 word" where
  "example_digest s = word_of_nat (foldl (\<lambda>h c. h * 257 + of_char c + 1) 7 s)"

section \<open>Retry delay\<close>

lemma exponential_jitter_mono:
  fixes d u u' :: real
  assumes d: "0 \<le> d" and u: "0 \<le> u" "u < 1" and u': "0 \<le> u'" and lt: "a < a'"
  shows "d * 2 ^ a + u * 0.1 * (d * 2 ^ a) \<le> d * 2 ^ a' + u' * 0.1 * (d * 2 ^ a')"
proof -
  have p: "(2::real) ^ Suc a \<le> 2 ^ a'"
    using lt by (intro power_increasing) auto
  have "d * 2 ^ a + u * 0.1 * (d * 2 ^ a) = d * 2 ^ a * (1 + 0.1 * u)"
    by (simp add: algebra_simps)
  also have "\<dots> \<le> d * 2 ^ a * 2"
    using d u by (intro mult_left_mono) auto
  also have "\<dots> = d * 2 ^ Suc a" by simp
  also have "\<dots> \<le> d * 2 ^ a'"
    using p d by (intro mult_left_mono) auto
  also have "\<dots> \<le> d * 2 ^ a' + u' * 0.1 * (d * 2 ^ a')"
    using d u' by simp
  finally show ?thesis .
qed

text \<open>
  Claim C5. With jitter fraction \<open>r = 0.1 * u\<close> in \<open>[0, 0.1)\<close>, the retry delay is
  \<open>min (retryDelay * 2 ^ a * (1 + r)) 30000\<close>; for a non-negative base delay it does not
  decrease when the attempt number grows (with the same or with another jitter value), it
  never exceeds 30000, and it is at least the base delay when that is at most 30000.
\<close>

theorem calculateRetryDelay_bounds:
  assumes "0 \<le> retryDelay (config b)" and "0 \<le> u" and "u < 1" and "0 \<le> u'" and "u' < 1"
  shows "calculateRetryDelay b u a = min (retryDelay (config b) * 2 ^ a * (1 + 0.1 * u)) 30000
       \<and> (a \<le> a' \<longrightarrow> calculateRetryDelay b u a \<le> calculateRetryDelay b u a')
       \<and> (a < a' \<longrightarrow> calculateRetryDelay b u a \<le> calculateRetryDelay b u' a')
       \<and> calculateRetryDelay b u a \<le> 30000
       \<and> (retryDelay (config b) \<le> 30000 \<longrightarrow> retryDelay (config b) \<le> calculateRetryDelay b u a)"
proof (intro conjI impI)
  let ?d = "retryDelay (config b)"
  show "calculateRetryDelay b u a = min (?d * 2 ^ a * (1 + 0.1 * u)) 30000"
    by (simp add: calculateRetryDelay_def Let_def algebra_simps)
  show "calculateRetryDelay b u a \<le> 30000"
    by (simp add: calculateRetryDelay_def Let_def)
  have jit: "a < a' \<Longrightarrow> 0 \<le> w \<Longrightarrow>
      calculateRetryDelay b u a \<le> calculateRetryDelay b w a'" for w
    using exponential_jitter_mono [of ?d u w a a'] assms
    by (auto simp: calculateRetryDelay_def Let_def min_def)
  show "calculateRetryDelay b u a \<le> calculateRetryDelay b u' a'" if "a < a'"
    using jit that assms by blast
  show "calculateRetryDelay b u a \<le> calculateRetryDelay b u a'" if "a \<le> a'"
  proof (cases "a = a'")
    case True then show ?thesis by simp
  next
    case False
    with that have "a < a'" by simp
    then show ?thesis using jit assms by blast
  qed
  show "?d \<le> calculateRetryDelay b u a" if "?d \<le> 30000"
  proof -
    have "(1::real) \<le> 2 ^ a" by simp
    then have "?d * 1 \<le> ?d * 2 ^ a"
      using assms(1) by (intro mult_left_mono) auto
    moreover have "0 \<le> u * 0.1 * (?d * 2 ^ a)"
      using assms by simp
    ultimately show ?thesis
      using that by (simp add: calculateRetryDelay_def Let_def min_def)
  qed
qed

theorem calculateRetryDelay_bounds_witness:
  "calculateRetryDelay (new_breaker DEFAULT_CONFIG 1) (1/2) 2 = 4200
   \<and> calculateRetryDelay (new_breaker DEFAULT_CONFIG 1) (1/2) 2
       \<le> calculateRetryDelay (new_breaker DEFAULT_CONFIG 1) (1/4) 3
   \<and> calculateRetryDelay (new_breaker DEFAULT_CONFIG 1) (1/2) 5 = 30000
   \<and> 1000 \<le> calculateRetryDelay (new_breaker DEFAULT_CONFIG 1) (1/2) 2"
  using calculateRetryDelay_bounds [of "new_breaker DEFAULT_CONFIG 1" "1/2" "1/4" 2 3]
        calculateRetryDelay_bounds [of "new_breaker DEFAULT_CONFIG 1" "1/2" "1/4" 5 5]
  by (simp add: new_breaker_def DEFAULT_CONFIG_def)

section \<open>Retries within one call\<close>

lemma retry_loop_bound:
  "retry_loop b env a le tr = (ex, tr') \<Longrightarrow>
     invocations tr' \<le> invocations tr + (maxRetries (config b) + 1 - a)"
proof (induction b env a le tr rule: retry_loop.induct)
  case (1 b env attempt lastError tr)
  show ?case
  proof (cases "attempt \<le> maxRetries (config b)")
    case False
    with "1.prems" show ?thesis by (simp add: retry_loop.simps)
  next
    case True
    show ?thesis
    proof (cases "operation env attempt")
      case (Resolved v)
      with True "1.prems" show ?thesis by (auto simp: retry_loop.simps)
    next
      case (Rejected msg)
      with True "1.prems" "1.IH" [OF True Rejected refl refl] show ?thesis
        by (auto simp: retry_loop.simps [of b env attempt] Let_def split: if_splits)
    qed
  qed
qed

lemma retry_loop_all_fail:
  assumes "\<forall>j. a \<le> j \<and> j \<le> maxRetries (config b) \<longrightarrow> (\<exists>m. operation env j = Rejected m)"
  shows "\<exists>le' tr'. retry_loop b env a le tr = (Fell_through le', tr')
           \<and> invocations tr' = invocations tr + (maxRetries (config b) + 1 - a)"
  using assms
proof (induction b env a le tr rule: retry_loop.induct)
  case (1 b env attempt lastError tr)
  show ?case
  proof (cases "attempt \<le> maxRetries (config b)")
    case False
    then show ?thesis by (simp add: retry_loop.simps)
  next
    case True
    with "1.prems" obtain msg where rej: "operation env attempt = Rejected msg" by blast
    have later: "\<forall>j. attempt + 1 \<le> j \<and> j \<le> maxRetries (config b) \<longrightarrow> (\<exists>m. operation env j = Rejected m)"
      using "1.prems" by auto
    from "1.IH" [OF True rej refl refl later] True rej show ?thesis
      by (auto simp: retry_loop.simps [of b env attempt] Let_def)
  qed
qed

lemma retry_loop_first_success:
  assumes "a \<le> k" and "k \<le> maxRetries (config b)" and "operation env k = Resolved v"
    and "\<forall>j. a \<le> j \<and> j < k \<longrightarrow> (\<exists>m. operation env j = Rejected m)"
  shows "\<exists>tr'. retry_loop b env a le tr = (Returned v k, tr')
           \<and> invocations tr' = invocations tr + (k + 1 - a)"
  using assms
proof (induction b env a le tr rule: retry_loop.induct)
  case (1 b env attempt lastError tr)
  have True: "attempt \<le> maxRetries (config b)" using "1.prems" by simp
  show ?case
  proof (cases "attempt = k")
    case True
    with "1.prems" show ?thesis by (simp add: retry_loop.simps [of b env k])
  next
    case False
    with "1.prems" have lt: "attempt < k" by simp
    with "1.prems" obtain msg where rej: "operation env attempt = Rejected msg" by blast
    have later: "\<forall>j. attempt + 1 \<le> j \<and> j < k \<longrightarrow> (\<exists>m. operation env j = Rejected m)"
      using "1.prems" by auto
    have "attempt + 1 \<le> k" using lt by simp
    from "1.IH" [OF True rej refl refl this "1.prems"(2,3) later] True rej lt show ?thesis
      by (auto simp: retry_loop.simps [of b env attempt] Let_def)
  qed
qed

lemma onFailure_counts:
  "totalFailures (onFailure now b) = totalFailures b + 1"
  "totalSuccesses (onFailure now b) = totalSuccesses b"
  "successCount (onFailure now b) = successCount b"
  "totalCalls (onFailure now b) = totalCalls b"
  "config (onFailure now b) = config b"
  "lastFailureTime (onFailure now b) = Some now"
  by (auto simp: onFailure_def cleanupOldFailures_def setState_def Let_def split: option.splits)

lemma onFailure_failureCount:
  "0 \<le> monitoringWindow (config b) \<Longrightarrow> failureCount (onFailure now b) = failureCount b + 1"
  by (auto simp: onFailure_def cleanupOldFailures_def setState_def Let_def split: option.splits)

lemma onSuccess_counts:
  "totalSuccesses (onSuccess now b) = totalSuccesses b + 1"
  "successCount (onSuccess now b) = successCount b + 1"
  "totalFailures (onSuccess now b) = totalFailures b"
  "totalCalls (onSuccess now b) = totalCalls b"
  "config (onSuccess now b) = config b"
  "lastFailureTime (onSuccess now b) = lastFailureTime b"
  "failureCount (onSuccess now b) \<le> failureCount b"
  by (auto simp: onSuccess_def cleanupOldFailures_def setState_def Let_def split: option.splits)

lemma shouldAttemptReset_totalCalls:
  "shouldAttemptReset now (b\<lparr>totalCalls := n\<rparr>) = shouldAttemptReset now b"
  by (simp add: shouldAttemptReset_def split: option.splits)

text \<open>
  Claim C3. A call of \<^verbatim>\<open>execute\<close> that is allowed to run invokes the operation at most
  \<open>maxRetries + 1\<close> times. When every attempt fails, it invokes it exactly that often and
  records one failure: \<open>totalFailures\<close> grows by one, and so does \<open>failureCount\<close> (for a
  non-negative monitoring window); no success is recorded. When attempt \<open>k\<close> is the first to
  succeed, the operation is invoked \<open>k + 1\<close> times and one success is recorded, no failure.
\<close>

theorem execute_reports_once:
  assumes allowed: "state b \<noteq> OPEN \<or> shouldAttemptReset (now_call env) b"
      and run: "execute env name b = (r, tr, b')"
  shows "invocations tr \<le> maxRetries (config b) + 1
     \<and> ((\<forall>k \<le> maxRetries (config b). \<exists>m. operation env k = Rejected m) \<longrightarrow>
          invocations tr = maxRetries (config b) + 1 \<and> \<not> cbr_success r
          \<and> totalFailures b' = totalFailures b + 1
          \<and> (0 \<le> monitoringWindow (config b) \<longrightarrow> failureCount b' = failureCount b + 1)
          \<and> totalSuccesses b' = totalSuccesses b \<and> successCount b' = successCount b)
     \<and> (\<forall>k v. k \<le> maxRetries (config b) \<and> operation env k = Resolved v
                 \<and> (\<forall>j<k. \<exists>m. operation env j = Rejected m) \<longrightarrow>
          invocations tr = k + 1 \<and> cbr_success r \<and> cbr_data r = Some v
          \<and> cbr_retryAttempt r = Some k
          \<and> totalSuccesses b' = totalSuccesses b + 1 \<and> successCount b' = successCount b + 1
          \<and> totalFailures b' = totalFailures b \<and> failureCount b' \<le> failureCount b)"
proof -
  define b1 where "b1 = (if state b = OPEN
      then setState (now_call env) HALF_OPEN (b\<lparr>totalCalls := totalCalls b + 1\<rparr>)
      else b\<lparr>totalCalls := totalCalls b + 1\<rparr>)"
  have ex: "execute env name b = executeWithRetries env name b1"
    using allowed by (auto simp: execute_def b1_def Let_def shouldAttemptReset_totalCalls)
  have cfg: "config b1 = config b"
    and cnt: "totalFailures b1 = totalFailures b" "failureCount b1 = failureCount b"
             "totalSuccesses b1 = totalSuccesses b" "successCount b1 = successCount b"
    by (auto simp: b1_def setState_def)
  have run1: "executeWithRetries env name b1 = (r, tr, b')" using ex run by simp
  have bound: "invocations tr \<le> maxRetries (config b) + 1"
  proof -
    obtain e t where l: "retry_loop b1 env 0 None no_trace = (e, t)" by fastforce
    from retry_loop_bound [OF l] have "invocations t \<le> maxRetries (config b) + 1"
      by (simp add: no_trace_def cfg)
    moreover have "tr = t" using run1 l
      by (cases e) (auto simp: executeWithRetries_def Let_def)
    ultimately show ?thesis by simp
  qed
  have fail: "invocations tr = maxRetries (config b) + 1 \<and> \<not> cbr_success r
          \<and> totalFailures b' = totalFailures b + 1
          \<and> (0 \<le> monitoringWindow (config b) \<longrightarrow> failureCount b' = failureCount b + 1)
          \<and> totalSuccesses b' = totalSuccesses b \<and> successCount b' = successCount b"
    if all: "\<forall>k \<le> maxRetries (config b). \<exists>m. operation env k = Rejected m"
  proof -
    from all have "\<forall>j. 0 \<le> j \<and> j \<le> maxRetries (config b1) \<longrightarrow> (\<exists>m. operation env j = Rejected m)"
      by (simp add: cfg)
    from retry_loop_all_fail [OF this, of None no_trace]
    obtain le' t where l: "retry_loop b1 env 0 None no_trace = (Fell_through le', t)"
      and n: "invocations t = maxRetries (config b) + 1"
      by (auto simp: no_trace_def cfg)
    from run1 l have "tr = t" "b' = onFailure (now_settled env) b1" "\<not> cbr_success r"
      by (auto simp: executeWithRetries_def Let_def)
    with n cnt cfg show ?thesis
      by (simp add: onFailure_counts onFailure_failureCount)
  qed
  have succ: "invocations tr = k + 1 \<and> cbr_success r \<and> cbr_data r = Some v
          \<and> cbr_retryAttempt r = Some k
          \<and> totalSuccesses b' = totalSuccesses b + 1 \<and> successCount b' = successCount b + 1
          \<and> totalFailures b' = totalFailures b \<and> failureCount b' \<le> failureCount b"
    if k: "k \<le> maxRetries (config b)" "operation env k = Resolved v"
          "\<forall>j<k. \<exists>m. operation env j = Rejected m" for k v
  proof -
    have "\<forall>j. 0 \<le> j \<and> j < k \<longrightarrow> (\<exists>m. operation env j = Rejected m)" using k by simp
    from retry_loop_first_success [of 0 k b1 env v, OF _ _ k(2) this, of None no_trace] k(1)
    obtain t where l: "retry_loop b1 env 0 None no_trace = (Returned v k, t)"
      and n: "invocations t = k + 1"
      by (auto simp: no_trace_def cfg)
    from run1 l have "tr = t" "b' = onSuccess (now_settled env) b1" "cbr_success r"
       "cbr_data r = Some v" "cbr_retryAttempt r = Some k"
      by (auto simp: executeWithRetries_def Let_def)
    with n cnt show ?thesis
      using onSuccess_counts(7) [of "now_settled env" b1] by (simp add: onSuccess_counts)
  qed
  from bound fail succ show ?thesis by blast
qed

theorem execute_reports_once_witness:
  "state (new_breaker DEFAULT_CONFIG 1) \<noteq> OPEN
   \<and> operation flaky_env 0 = Rejected ''busy'' \<and> operation flaky_env 1 = Rejected ''busy''
   \<and> operation flaky_env 2 = Resolved 7
   \<and> invocations (fst (snd (execute flaky_env ''q'' (new_breaker DEFAULT_CONFIG 1)))) = 3
   \<and> totalSuccesses (snd (snd (execute flaky_env ''q'' (new_breaker DEFAULT_CONFIG 1)))) = 1
   \<and> totalFailures (snd (snd (execute flaky_env ''q'' (new_breaker DEFAULT_CONFIG 1)))) = 0
   \<and> operation (failing_env 1000 9000) 3 = Rejected ''locked''
   \<and> invocations (fst (snd (execute (failing_env 1000 9000) ''q'' (new_breaker DEFAULT_CONFIG 1)))) = 4
   \<and> totalFailures (snd (snd (execute (failing_env 1000 9000) ''q'' (new_breaker DEFAULT_CONFIG 1)))) = 1
   \<and> failureCount (snd (snd (execute (failing_env 1000 9000) ''q'' (new_breaker DEFAULT_CONFIG 1)))) = 1"
proof -
  let ?b = "new_breaker DEFAULT_CONFIG 1"
  have allowed: "state ?b \<noteq> OPEN \<or> shouldAttemptReset (now_call env) ?b" for env :: "nat call_env"
    by (simp add: new_breaker_def)
  have cfg: "maxRetries (config ?b) = 3" "monitoringWindow (config ?b) = 300000"
    "totalSuccesses ?b = 0" "totalFailures ?b = 0" "failureCount ?b = 0"
    by (simp_all add: new_breaker_def DEFAULT_CONFIG_def)
  have ops: "operation flaky_env 0 = Rejected ''busy''" "operation flaky_env 1 = Rejected ''busy''"
    "operation flaky_env 2 = Resolved 7"
    by (simp_all add: flaky_env_def)
  have before: "\<forall>j<2. \<exists>m. operation flaky_env j = Rejected m"
    by (simp add: flaky_env_def)
  have allf: "\<forall>k \<le> 3. \<exists>m. operation (failing_env 1000 9000) k = Rejected m"
    by (simp add: failing_env_def)
  have p: "x = (fst x, fst (snd x), snd (snd x))" for x :: "'a \<times> 'b \<times> 'c" by simp
  from execute_reports_once [OF allowed p, of flaky_env "''q''",
        THEN conjunct2, THEN conjunct2, rule_format, of 2 7] ops before cfg
  have 1: "invocations (fst (snd (execute flaky_env ''q'' ?b))) = 3"
     "totalSuccesses (snd (snd (execute flaky_env ''q'' ?b))) = 1"
     "totalFailures (snd (snd (execute flaky_env ''q'' ?b))) = 0"
    by simp_all
  from execute_reports_once [OF allowed p, of "failing_env 1000 9000" "''q''",
        THEN conjunct2, THEN conjunct1, rule_format] allf cfg
  have 2: "invocations (fst (snd (execute (failing_env 1000 9000) ''q'' ?b))) = 4"
     "totalFailures (snd (snd (execute (failing_env 1000 9000) ''q'' ?b))) = 1"
     "failureCount (snd (snd (execute (failing_env 1000 9000) ''q'' ?b))) = 1"
    by simp_all
  from 1 2 ops show ?thesis
    by (simp add: new_breaker_def failing_env_def)
qed

section \<open>The gate of an open breaker\<close>

lemma retry_loop_invokes:
  "retry_loop b env a le tr = (ex, tr') \<Longrightarrow> a \<le> maxRetries (config b) \<Longrightarrow>
     invocations tr < invocations tr'"
proof (induction b env a le tr rule: retry_loop.induct)
  case (1 b env attempt lastError tr)
  note le = "1.prems"(2)
  show ?case
  proof (cases "operation env attempt")
    case (Resolved v)
    with le "1.prems" show ?thesis by (auto simp: retry_loop.simps [of b env attempt])
  next
    case (Rejected msg)
    show ?thesis
    proof (cases "attempt + 1 \<le> maxRetries (config b)")
      case True
      with le Rejected "1.prems"(1) "1.IH" [OF le Rejected refl refl _ True] show ?thesis
        by (auto simp: retry_loop.simps [of b env attempt] Let_def split: if_splits)
    next
      case False
      with le Rejected "1.prems"(1) show ?thesis
        by (auto simp: retry_loop.simps [of b env attempt] retry_loop.simps [of b env "Suc attempt"] Let_def split: if_splits)
    qed
  qed
qed

lemma execute_rejected:
  assumes "state b = OPEN" and "\<not> shouldAttemptReset (now_call env) b"
  shows "execute env name b =
     (\<lparr>cbr_success = False, cbr_data = None,
       cbr_error = Some (''Circuit breaker is OPEN for '' @ name @ ''. Blocking operation.''),
       cbr_circuitState = OPEN, cbr_retryAttempt = None\<rparr>, no_trace,
      b\<lparr>totalCalls := totalCalls b + 1\<rparr>)"
  using assms by (simp add: execute_def Let_def shouldAttemptReset_totalCalls)

lemma execute_admitted:
  assumes "state b \<noteq> OPEN \<or> shouldAttemptReset (now_call env) b"
  shows "execute env name b = executeWithRetries env name (admitted (now_call env) b)"
  using assms by (auto simp: execute_def admitted_def Let_def shouldAttemptReset_totalCalls)

lemma executeWithRetries_cases:
  obtains (succeeded) v k tr where
      "executeWithRetries env name b =
         (\<lparr>cbr_success = True, cbr_data = Some v, cbr_error = None,
           cbr_circuitState = state (onSuccess (now_settled env) b),
           cbr_retryAttempt = Some k\<rparr>, tr, onSuccess (now_settled env) b)"
      "0 < invocations tr"
  | (exhausted) e tr where
      "executeWithRetries env name b =
         (\<lparr>cbr_success = False, cbr_data = None, cbr_error = Some e,
           cbr_circuitState = state (onFailure (now_settled env) b),
           cbr_retryAttempt = Some (maxRetries (config b))\<rparr>, tr, onFailure (now_settled env) b)"
      "0 < invocations tr"
proof -
  obtain ex t where l: "retry_loop b env 0 None no_trace = (ex, t)" by fastforce
  from retry_loop_invokes [OF l] have pos: "0 < invocations t" by (simp add: no_trace_def)
  show thesis
  proof (cases ex)
    case (Returned v k)
    with l pos show ?thesis by (intro succeeded [of v k t]) (simp_all add: executeWithRetries_def Let_def)
  next
    case (Fell_through le)
    with l pos show ?thesis by (intro exhausted [of _ t]) (simp_all add: executeWithRetries_def Let_def)
  qed
qed

lemma onSuccess_state:
  "state (onSuccess now b) =
     (if state b = HALF_OPEN \<and> successThreshold (config b) \<le> consecutiveSuccesses b + 1
      then CLOSED else state b)"
  by (auto simp: onSuccess_def cleanupOldFailures_def setState_def Let_def split: option.splits)

lemma onFailure_state:
  "state (onFailure now b) =
     (if (state b = CLOSED \<or> state b = HALF_OPEN)
          \<and> failureThreshold (config b) \<le> failureCount (onFailure now b)
      then OPEN else state b)"
  by (auto simp: onFailure_def cleanupOldFailures_def setState_def Let_def split: option.splits)

lemma admitted_fields:
  "config (admitted now b) = config b"
  "failureCount (admitted now b) = failureCount b"
  "consecutiveSuccesses (admitted now b) = consecutiveSuccesses b"
  "lastFailureTime (admitted now b) = lastFailureTime b"
  "totalFailures (admitted now b) = totalFailures b"
  "state (admitted now b) = (if state b = OPEN then HALF_OPEN else state b)"
  by (auto simp: admitted_def setState_def)

lemma execute_all_fail:
  assumes allowed: "state b \<noteq> OPEN \<or> shouldAttemptReset (now_call env) b"
    and all: "\<forall>k \<le> maxRetries (config b). \<exists>m. operation env k = Rejected m"
  shows "snd (snd (execute env name b)) = onFailure (now_settled env) (admitted (now_call env) b)"
    and "\<not> cbr_success (fst (execute env name b))"
proof -
  let ?b1 = "admitted (now_call env) b"
  from all have "\<forall>j. 0 \<le> j \<and> j \<le> maxRetries (config ?b1) \<longrightarrow> (\<exists>m. operation env j = Rejected m)"
    by (simp add: admitted_fields)
  from retry_loop_all_fail [OF this, of None no_trace]
  obtain le' t where l: "retry_loop ?b1 env 0 None no_trace = (Fell_through le', t)" by blast
  then show "snd (snd (execute env name b)) = onFailure (now_settled env) ?b1"
    and "\<not> cbr_success (fst (execute env name b))"
    by (simp_all add: execute_admitted [OF allowed] executeWithRetries_def Let_def)
qed

lemma failing_call_when_closed:
  assumes "state b = CLOSED" and "0 \<le> monitoringWindow (config b)"
    and "\<forall>k \<le> maxRetries (config b). \<exists>m. operation env k = Rejected m"
  shows "config (apply_event (Call env name) b) = config b"
    and "failureCount (apply_event (Call env name) b) = failureCount b + 1"
    and "lastFailureTime (apply_event (Call env name) b) = Some (now_settled env)"
    and "state (apply_event (Call env name) b) =
           (if failureThreshold (config b) \<le> failureCount b + 1 then OPEN else CLOSED)"
proof -
  let ?b1 = "admitted (now_call env) b"
  have e: "snd (snd (execute env name b)) = onFailure (now_settled env) ?b1"
    using execute_all_fail(1) [of b env name] assms by simp
  have fc: "failureCount (onFailure (now_settled env) ?b1) = failureCount b + 1"
    using onFailure_failureCount [of ?b1 "now_settled env"] assms(2) by (simp add: admitted_fields)
  show "config (apply_event (Call env name) b) = config b"
    by (simp add: e onFailure_counts admitted_fields)
  show "failureCount (apply_event (Call env name) b) = failureCount b + 1"
    using fc e by simp
  show "lastFailureTime (apply_event (Call env name) b) = Some (now_settled env)"
    by (simp add: e onFailure_counts)
  show "state (apply_event (Call env name) b) =
           (if failureThreshold (config b) \<le> failureCount b + 1 then OPEN else CLOSED)"
    unfolding apply_event.simps e using assms(1) fc
    by (subst onFailure_state) (simp add: admitted_fields)
qed

text \<open>
  Claim C4. A call of \<^verbatim>\<open>execute\<close> on an open breaker whose last failure (at a non-zero
  clock reading) is less than \<open>resetTimeout\<close> old returns a failure, leaves the breaker open
  and never invokes the operation. In particular, with \<open>failureThreshold = 5\<close> and a
  non-negative monitoring window, five calls whose attempts all fail open a new breaker, and
  a sixth call less than \<open>resetTimeout\<close> after the fifth failure is rejected with no
  invocation.
\<close>

theorem open_breaker_rejects:
  "(state b = OPEN \<and> lastFailureTime b = Some lf \<and> lf \<noteq> 0
      \<and> now_call env - lf < resetTimeout (config b) \<longrightarrow>
        \<not> cbr_success (fst (execute env name b))
      \<and> invocations (fst (snd (execute env name b))) = 0
      \<and> state (snd (snd (execute env name b))) = OPEN)
   \<and> (failureThreshold cfg = 5 \<and> 0 \<le> monitoringWindow cfg
      \<and> (\<forall>e \<in> set [e1, e2, e3, e4, e5]. \<forall>k \<le> maxRetries cfg. \<exists>m. operation e k = Rejected m)
      \<and> now_settled e5 \<noteq> 0 \<and> now_call e6 - now_settled e5 < resetTimeout cfg \<longrightarrow>
        state (run_events [Call e1 n1, Call e2 n2, Call e3 n3, Call e4 n4, Call e5 n5]
                 (new_breaker cfg t0)) = OPEN
      \<and> \<not> cbr_success (fst (execute e6 n6
            (run_events [Call e1 n1, Call e2 n2, Call e3 n3, Call e4 n4, Call e5 n5]
               (new_breaker cfg t0))))
      \<and> invocations (fst (snd (execute e6 n6
            (run_events [Call e1 n1, Call e2 n2, Call e3 n3, Call e4 n4, Call e5 n5]
               (new_breaker cfg t0))))) = 0)"
proof (intro conjI impI)
  assume a: "state b = OPEN \<and> lastFailureTime b = Some lf \<and> lf \<noteq> 0
      \<and> now_call env - lf < resetTimeout (config b)"
  then have "\<not> shouldAttemptReset (now_call env) b"
    by (simp add: shouldAttemptReset_def)
  from execute_rejected [OF _ this, of name] a
  show "\<not> cbr_success (fst (execute env name b))"
    and "invocations (fst (snd (execute env name b))) = 0"
    and "state (snd (snd (execute env name b))) = OPEN"
    by (simp_all add: no_trace_def)
next
  assume a: "failureThreshold cfg = 5 \<and> 0 \<le> monitoringWindow cfg
      \<and> (\<forall>e \<in> set [e1, e2, e3, e4, e5]. \<forall>k \<le> maxRetries cfg. \<exists>m. operation e k = Rejected m)
      \<and> now_settled e5 \<noteq> 0 \<and> now_call e6 - now_settled e5 < resetTimeout cfg"
  define b0 where "b0 = new_breaker cfg t0"
  define b1 where "b1 = apply_event (Call e1 n1) b0"
  define b2 where "b2 = apply_event (Call e2 n2) b1"
  define b3 where "b3 = apply_event (Call e3 n3) b2"
  define b4 where "b4 = apply_event (Call e4 n4) b3"
  define b5 where "b5 = apply_event (Call e5 n5) b4"
  have r: "run_events [Call e1 n1, Call e2 n2, Call e3 n3, Call e4 n4, Call e5 n5]
                 (new_breaker cfg t0) = b5"
    by (simp add: run_events_def b0_def b1_def b2_def b3_def b4_def b5_def)
  have s0: "state b0 = CLOSED" "config b0 = cfg" "failureCount b0 = 0"
    by (simp_all add: b0_def new_breaker_def)
  have s1: "state b1 = CLOSED" "config b1 = cfg" "failureCount b1 = 1"
    using failing_call_when_closed [of b0 e1 n1] s0 a by (simp_all add: b1_def)
  have s2: "state b2 = CLOSED" "config b2 = cfg" "failureCount b2 = 2"
    using failing_call_when_closed [of b1 e2 n2] s1 a by (simp_all add: b2_def)
  have s3: "state b3 = CLOSED" "config b3 = cfg" "failureCount b3 = 3"
    using failing_call_when_closed [of b2 e3 n3] s2 a by (simp_all add: b3_def)
  have s4: "state b4 = CLOSED" "config b4 = cfg" "failureCount b4 = 4"
    using failing_call_when_closed [of b3 e4 n4] s3 a by (simp_all add: b4_def)
  have s5: "state b5 = OPEN" "config b5 = cfg" "lastFailureTime b5 = Some (now_settled e5)"
    using failing_call_when_closed [of b4 e5 n5] s4 a by (simp_all add: b5_def)
  with a have "\<not> shouldAttemptReset (now_call e6) b5"
    by (simp add: shouldAttemptReset_def)
  from execute_rejected [OF s5(1) this, of n6] s5(1)
  show "state (run_events [Call e1 n1, Call e2 n2, Call e3 n3, Call e4 n4, Call e5 n5]
                 (new_breaker cfg t0)) = OPEN"
   and "\<not> cbr_success (fst (execute e6 n6
            (run_events [Call e1 n1, Call e2 n2, Call e3 n3, Call e4 n4, Call e5 n5]
               (new_breaker cfg t0))))"
   and "invocations (fst (snd (execute e6 n6
            (run_events [Call e1 n1, Call e2 n2, Call e3 n3, Call e4 n4, Call e5 n5]
               (new_breaker cfg t0))))) = 0"
    unfolding r by (simp_all add: no_trace_def)
qed

theorem open_breaker_rejects_witness:
  "failureThreshold DEFAULT_CONFIG = 5 \<and> 0 \<le> monitoringWindow DEFAULT_CONFIG
   \<and> operation (failing_env 9000 10000) 3 = Rejected ''locked''
   \<and> now_call (healthy_env 69999 70000) - now_settled (failing_env 9000 10000 :: nat call_env)
        < resetTimeout DEFAULT_CONFIG
   \<and> state (run_events five_failures (new_breaker DEFAULT_CONFIG 1)) = OPEN
   \<and> lastFailureTime (run_events five_failures (new_breaker DEFAULT_CONFIG 1)) = Some 10000
   \<and> \<not> cbr_success (fst (execute (healthy_env 69999 70000) ''get_sessions''
            (run_events five_failures (new_breaker DEFAULT_CONFIG 1))))
   \<and> invocations (fst (snd (execute (healthy_env 69999 70000) ''get_sessions''
            (run_events five_failures (new_breaker DEFAULT_CONFIG 1))))) = 0"
proof -
  have h: "failureThreshold DEFAULT_CONFIG = 5 \<and> 0 \<le> monitoringWindow DEFAULT_CONFIG
      \<and> (\<forall>e \<in> set [failing_env 1000 2000, failing_env 3000 4000, failing_env 5000 6000,
                     failing_env 7000 8000, failing_env 9000 10000 :: nat call_env].
            \<forall>k \<le> maxRetries DEFAULT_CONFIG. \<exists>m. operation e k = Rejected m)
      \<and> now_settled (failing_env 9000 10000 :: nat call_env) \<noteq> 0
      \<and> now_call (healthy_env 69999 70000) - now_settled (failing_env 9000 10000 :: nat call_env)
           < resetTimeout DEFAULT_CONFIG"
    by (simp add: DEFAULT_CONFIG_def failing_env_def healthy_env_def)
  have lf: "lastFailureTime (run_events five_failures (new_breaker DEFAULT_CONFIG 1)) = Some 10000"
    by code_simp
  from open_breaker_rejects [THEN conjunct2, rule_format, OF h,
      of "''get_sessions''" "''get_sessions''" "''get_sessions''" "''get_sessions''"
         "''get_sessions''" 1 "''get_sessions''"] h lf
  show ?thesis
    by (simp add: five_failures_def failing_env_def)
qed

section \<open>State transitions of the breaker\<close>

text \<open>
  Claim C1, as stated, fails in its last part: a recorded failure in state \<open>HALF_OPEN\<close>
  does not always return the breaker to \<open>OPEN\<close>. After five failing calls, a success
  more than a monitoring window later half-opens the breaker and clears the failure count;
  the next call fails on every attempt, is recorded (\<open>totalFailures = 6\<close>), and the breaker
  stays \<open>HALF_OPEN\<close>.
\<close>

theorem half_open_failure_counterexample:
  "state (run_events recovering_history (new_breaker DEFAULT_CONFIG 1)) = HALF_OPEN
   \<and> \<not> cbr_success (fst (execute (failing_env 401000 402000) ''get_sessions''
          (run_events recovering_history (new_breaker DEFAULT_CONFIG 1))))
   \<and> totalFailures (snd (snd (execute (failing_env 401000 402000) ''get_sessions''
          (run_events recovering_history (new_breaker DEFAULT_CONFIG 1))))) = 6
   \<and> state (snd (snd (execute (failing_env 401000 402000) ''get_sessions''
          (run_events recovering_history (new_breaker DEFAULT_CONFIG 1))))) = HALF_OPEN"
  by code_simp

lemma apply_event_open_has_failure_time:
  assumes "open_has_failure_time b" and "clock_nonzero ev"
  shows "open_has_failure_time (apply_event ev b)"
proof (cases ev)
  case (Call env name)
  show ?thesis
  proof (cases "state b \<noteq> OPEN \<or> shouldAttemptReset (now_call env) b")
    case False
    with execute_rejected [of b env name] assms(1) Call show ?thesis
      by (auto simp: open_has_failure_time_def)
  next
    case True
    note ex = execute_admitted [OF True, of name]
    show ?thesis
    proof (cases rule: executeWithRetries_cases [of env name "admitted (now_call env) b"])
      case (succeeded v k tr)
      with ex Call show ?thesis
        by (auto simp: open_has_failure_time_def onSuccess_state admitted_fields split: if_splits)
    next
      case (exhausted e tr)
      with ex Call assms(2) show ?thesis
        by (auto simp: open_has_failure_time_def onFailure_counts)
    qed
  qed
next
  case (ManualReset now)
  then show ?thesis by (simp add: open_has_failure_time_def reset_def setState_def)
next
  case (ManualOpen now)
  with assms(2) show ?thesis by (simp add: open_has_failure_time_def manual_open_def setState_def)
next
  case (ConfigUpdate c)
  with assms(1) show ?thesis by (simp add: open_has_failure_time_def updateConfig_def)
qed

lemma run_events_open_has_failure_time:
  "open_has_failure_time b \<Longrightarrow> list_all clock_nonzero evs \<Longrightarrow>
     open_has_failure_time (run_events evs b)"
  unfolding run_events_def
  by (induction evs arbitrary: b) (simp_all add: apply_event_open_has_failure_time)

lemma new_breaker_open_has_failure_time: "open_has_failure_time (new_breaker cfg t0)"
  by (simp add: open_has_failure_time_def new_breaker_def)

text \<open>
  Claim C1, amended. For every breaker state reached from a new breaker by calls and manual
  controls (the clock never reading 0) and every further call of \<^verbatim>\<open>execute\<close>:
  from \<open>CLOSED\<close> the breaker opens exactly when the call records a failure and the failure
  count then is at least \<open>failureThreshold\<close>; an open breaker lets the call through (and
  half-opens) only when the last failure is at least \<open>resetTimeout\<close> old; the breaker
  closes from a state other than \<open>CLOSED\<close> only on a success that brings the consecutive
  successes to \<open>successThreshold\<close>; and a failure recorded while half-open returns the
  breaker to \<open>OPEN\<close> exactly when the failure count then is at least
  \<open>failureThreshold\<close>, and leaves it \<open>HALF_OPEN\<close> otherwise.
\<close>

theorem breaker_transitions:
  assumes hist: "list_all clock_nonzero evs"
      and b: "b = run_events evs (new_breaker cfg t0)"
      and run: "execute env name b = (r, tr, b')"
  shows "(state b = CLOSED \<longrightarrow> state b' \<noteq> HALF_OPEN
            \<and> (state b' = OPEN \<longleftrightarrow> \<not> cbr_success r \<and> failureThreshold (config b) \<le> failureCount b'))
       \<and> (state b = OPEN \<and> (0 < invocations tr \<or> state b' \<noteq> OPEN) \<longrightarrow>
            (\<exists>lf. lastFailureTime b = Some lf \<and> resetTimeout (config b) \<le> now_call env - lf))
       \<and> (state b \<noteq> CLOSED \<and> state b' = CLOSED \<longrightarrow>
            cbr_success r \<and> successThreshold (config b) \<le> consecutiveSuccesses b + 1)
       \<and> ((state b = HALF_OPEN \<or> state b = OPEN \<and> 0 < invocations tr) \<and> \<not> cbr_success r \<longrightarrow>
            (if failureThreshold (config b) \<le> failureCount b' then state b' = OPEN
             else state b' = HALF_OPEN))"
proof -
  have inv: "open_has_failure_time b"
    unfolding b using new_breaker_open_has_failure_time hist
    by (rule run_events_open_has_failure_time)
  show ?thesis
  proof (cases "state b \<noteq> OPEN \<or> shouldAttemptReset (now_call env) b")
    case False
    with execute_rejected [of b env name] run
    show ?thesis by (auto simp: no_trace_def)
  next
    case True
    let ?b1 = "admitted (now_call env) b"
    note ex = execute_admitted [OF True, of name]
    have elapsed: "\<exists>lf. lastFailureTime b = Some lf \<and> resetTimeout (config b) \<le> now_call env - lf"
      if "state b = OPEN"
      using that True inv
      by (auto simp: open_has_failure_time_def shouldAttemptReset_def)
    show ?thesis
    proof (cases rule: executeWithRetries_cases [of env name ?b1])
      case (succeeded v k t)
      with ex run have "r = \<lparr>cbr_success = True, cbr_data = Some v, cbr_error = None,
           cbr_circuitState = state (onSuccess (now_settled env) ?b1),
           cbr_retryAttempt = Some k\<rparr>" "b' = onSuccess (now_settled env) ?b1" by simp_all
      then show ?thesis using elapsed
        by (auto simp: onSuccess_state admitted_fields split: if_splits)
    next
      case (exhausted e t)
      with ex run have r: "\<not> cbr_success r" and b': "b' = onFailure (now_settled env) ?b1"
        and tr: "0 < invocations tr" by auto
      have st: "state b' = (if (state ?b1 = CLOSED \<or> state ?b1 = HALF_OPEN)
          \<and> failureThreshold (config b) \<le> failureCount b' then OPEN else state ?b1)"
        unfolding b' by (subst onFailure_state) (simp add: admitted_fields)
      show ?thesis using r st elapsed
        by (cases "state b") (auto simp: admitted_fields split: if_splits)
    qed
  qed
qed

theorem breaker_transitions_witness:
  "list_all clock_nonzero four_failures
   \<and> state (example_breaker four_failures) = CLOSED
   \<and> \<not> cbr_success (fst (execute (failing_env 9000 10000) ''q'' (example_breaker four_failures)))
   \<and> failureCount (snd (snd (execute (failing_env 9000 10000) ''q'' (example_breaker four_failures)))) = 5
   \<and> state (snd (snd (execute (failing_env 9000 10000) ''q'' (example_breaker four_failures)))) = OPEN
   \<and> list_all clock_nonzero five_failures
   \<and> state (example_breaker five_failures) = OPEN
   \<and> invocations (fst (snd (execute (healthy_env 80000 80100) ''q'' (example_breaker five_failures)))) = 1
   \<and> lastFailureTime (example_breaker five_failures) = Some 10000
   \<and> resetTimeout (config (example_breaker five_failures)) \<le> 80000 - 10000
   \<and> list_all clock_nonzero closing_history
   \<and> state (example_breaker closing_history) = HALF_OPEN
   \<and> state (snd (snd (execute (healthy_env 82000 82100) ''q'' (example_breaker closing_history)))) = CLOSED
   \<and> successThreshold (config (example_breaker closing_history))
        \<le> consecutiveSuccesses (example_breaker closing_history) + 1
   \<and> list_all clock_nonzero probing_history
   \<and> state (example_breaker probing_history) = HALF_OPEN
   \<and> \<not> cbr_success (fst (execute (failing_env 81000 82000) ''q'' (example_breaker probing_history)))
   \<and> failureCount (snd (snd (execute (failing_env 81000 82000) ''q'' (example_breaker probing_history)))) = 6
   \<and> state (snd (snd (execute (failing_env 81000 82000) ''q'' (example_breaker probing_history)))) = OPEN
   \<and> list_all clock_nonzero recovering_history
   \<and> state (example_breaker recovering_history) = HALF_OPEN
   \<and> \<not> cbr_success (fst (execute (failing_env 401000 402000) ''q'' (example_breaker recovering_history)))
   \<and> failureCount (snd (snd (execute (failing_env 401000 402000) ''q'' (example_breaker recovering_history)))) = 1
   \<and> state (snd (snd (execute (failing_env 401000 402000) ''q'' (example_breaker recovering_history)))) = HALF_OPEN"
proof -
  have p: "x = (fst x, fst (snd x), snd (snd x))" for x :: "'a \<times> 'b \<times> 'c" by simp
  have h1: "list_all clock_nonzero four_failures" by code_simp
  have h2: "list_all clock_nonzero five_failures" by code_simp
  have h3: "list_all clock_nonzero closing_history" by code_simp
  have h4: "list_all clock_nonzero probing_history" by code_simp
  have h5: "list_all clock_nonzero recovering_history" by code_simp
  note T = breaker_transitions [OF _ example_breaker_def p]
  have a: "state (example_breaker four_failures) = CLOSED"
    "\<not> cbr_success (fst (execute (failing_env 9000 10000) ''q'' (example_breaker four_failures)))"
    "failureCount (snd (snd (execute (failing_env 9000 10000) ''q'' (example_breaker four_failures)))) = 5"
    "failureThreshold (config (example_breaker four_failures)) = 5"
    by code_simp+
  from T [OF h1, of "failing_env 9000 10000" "''q''", THEN conjunct1] a
  have a': "state (snd (snd (execute (failing_env 9000 10000) ''q'' (example_breaker four_failures)))) = OPEN"
    by simp
  have b: "state (example_breaker five_failures) = OPEN"
    "invocations (fst (snd (execute (healthy_env 80000 80100) ''q'' (example_breaker five_failures)))) = 1"
    "lastFailureTime (example_breaker five_failures) = Some 10000"
    "now_call (healthy_env 80000 80100) = 80000"
    by code_simp+
  from T [OF h2, of "healthy_env 80000 80100" "''q''", THEN conjunct2, THEN conjunct1] b
  have b': "resetTimeout (config (example_breaker five_failures)) \<le> 80000 - 10000"
    by simp
  have c: "state (example_breaker closing_history) = HALF_OPEN"
    "state (snd (snd (execute (healthy_env 82000 82100) ''q'' (example_breaker closing_history)))) = CLOSED"
    by code_simp+
  from T [OF h3, of "healthy_env 82000 82100" "''q''", THEN conjunct2, THEN conjunct2, THEN conjunct1] c
  have c': "successThreshold (config (example_breaker closing_history))
        \<le> consecutiveSuccesses (example_breaker closing_history) + 1"
    by simp
  have d: "state (example_breaker probing_history) = HALF_OPEN"
    "\<not> cbr_success (fst (execute (failing_env 81000 82000) ''q'' (example_breaker probing_history)))"
    "failureCount (snd (snd (execute (failing_env 81000 82000) ''q'' (example_breaker probing_history)))) = 6"
    "failureThreshold (config (example_breaker probing_history)) = 5"
    by code_simp+
  from T [OF h4, of "failing_env 81000 82000" "''q''", THEN conjunct2, THEN conjunct2, THEN conjunct2] d
  have d': "state (snd (snd (execute (failing_env 81000 82000) ''q'' (example_breaker probing_history)))) = OPEN"
    by simp
  have e: "state (example_breaker recovering_history) = HALF_OPEN"
    "\<not> cbr_success (fst (execute (failing_env 401000 402000) ''q'' (example_breaker recovering_history)))"
    "failureCount (snd (snd (execute (failing_env 401000 402000) ''q'' (example_breaker recovering_history)))) = 1"
    "failureThreshold (config (example_breaker recovering_history)) = 5"
    by code_simp+
  from T [OF h5, of "failing_env 401000 402000" "''q''", THEN conjunct2, THEN conjunct2, THEN conjunct2] e
  have e': "state (snd (snd (execute (failing_env 401000 402000) ''q'' (example_breaker recovering_history)))) = HALF_OPEN"
    by simp
  from h1 h2 h3 h4 h5 a a' b(1-3) b' c c' d(1-3) d' e(1-3) e' show ?thesis by blast
qed

section \<open>Messages with an invalid role\<close>

lemma parseIndividualMessage_success:
  "sr_success (parseIndividualMessage rt opts m i) = message_ok m"
  by (auto simp: parseIndividualMessage_def message_ok_def step_failed_def falsy_def
        falsy_opt_def Let_def split: option.splits json.splits prod.splits)

lemma parseIndividualMessage_data:
  "message_ok m \<Longrightarrow> \<exists>msg. sr_data (parseIndividualMessage rt opts m i) = Some msg"
  by (auto simp: parseIndividualMessage_def message_ok_def step_failed_def falsy_def
        falsy_opt_def Let_def split: option.splits json.splits prod.splits)

lemma parseIndividualMessage_index:
  "parseIndividualMessage rt opts m i = parseIndividualMessage rt opts m j"
  by (simp add: parseIndividualMessage_def)

lemma parseIndividualMessage_bad_role:
  assumes "m = JObj kvs" and "property m ''role'' = Some (JStr r)"
    and "r \<noteq> ''user''" and "r \<noteq> ''assistant''"
  shows "parseIndividualMessage rt opts m i = step_failed (''Invalid or missing role: '' @ r) []"
  using assms by (simp add: parseIndividualMessage_def falsy_def js_string_opt_def)

lemma strict_from_fails:
  assumes "strictMode opts" and "\<exists>m \<in> set ms. \<not> message_ok m"
  shows "\<not> sr_success (parseMessages_from rt opts ms i acc ws)"
  using assms(2)
proof (induction ms arbitrary: i acc ws)
  case Nil
  then show ?case by simp
next
  case (Cons m ms)
  show ?case
  proof (cases "message_ok m")
    case True
    with parseIndividualMessage_data [OF True, of rt opts i] Cons show ?thesis
      by (auto simp: parseIndividualMessage_success Let_def)
  next
    case False
    then have "\<not> sr_success (parseIndividualMessage rt opts m i)"
      by (simp add: parseIndividualMessage_success)
    with assms(1) show ?thesis
      by (simp add: Let_def step_failed_def split: bool.splits option.splits)
  qed
qed

lemma strict_from_first_invalid:
  assumes "strictMode opts" and "\<forall>x \<in> set pre. message_ok x" and "\<not> message_ok m"
  shows "parseMessages_from rt opts (pre @ m # rest) i acc ws =
           step_failed
             (or_default (sr_error (parseIndividualMessage rt opts m (i + length pre)))
                (''Invalid message at index '' @ show_nat (i + length pre)))
             (ws @ warnings_or_empty (sr_warnings (parseIndividualMessage rt opts m (i + length pre))))"
  using assms(2)
proof (induction pre arbitrary: i acc)
  case Nil
  from assms(3) have "\<not> sr_success (parseIndividualMessage rt opts m i)"
    by (simp add: parseIndividualMessage_success)
  with assms(1) show ?case
    by (simp add: Let_def split: bool.splits option.splits)
next
  case (Cons x pre)
  then have ok: "message_ok x" by simp
  from parseIndividualMessage_data [OF ok, of rt opts i] obtain msg
    where d: "sr_data (parseIndividualMessage rt opts x i) = Some msg" by blast
  from Cons.IH [of "i + 1" "acc @ [msg]"] Cons.prems ok d show ?case
    by (simp add: Let_def parseIndividualMessage_success)
qed

lemma lenient_from_succeeds:
  assumes "\<not> strictMode opts"
  shows "sr_success (parseMessages_from rt opts ms i acc ws)
       \<and> sr_data (parseMessages_from rt opts ms i acc ws)
           = Some (acc @ map (parsed_message rt opts) (filter message_ok ms))"
proof (induction ms arbitrary: i acc ws)
  case Nil
  then show ?case by simp
next
  case (Cons m ms)
  show ?case
  proof (cases "message_ok m")
    case True
    from parseIndividualMessage_data [OF True, of rt opts i] obtain msg
      where d: "sr_data (parseIndividualMessage rt opts m i) = Some msg" by blast
    then have "parsed_message rt opts m = msg"
      using parseIndividualMessage_index [of rt opts m 0 i] by (simp add: parsed_message_def)
    with True d Cons.IH [of "i + 1" "acc @ [msg]" ws] show ?thesis
      by (simp add: Let_def parseIndividualMessage_success)
  next
    case False
    then have "\<not> sr_success (parseIndividualMessage rt opts m i)"
      by (simp add: parseIndividualMessage_success)
    with False assms Cons.IH show ?thesis
      by (simp add: Let_def split: bool.splits option.splits)
  qed
qed

lemma lenient_from_keeps_warnings:
  assumes "\<not> strictMode opts" and "w \<in> set ws"
  shows "w \<in> set (warnings_or_empty (sr_warnings (parseMessages_from rt opts ms i acc ws)))"
  using assms(2)
proof (induction ms arbitrary: i acc ws)
  case Nil
  then show ?case by (auto simp: nonempty_or_undefined_def warnings_or_empty_def)
next
  case (Cons m ms)
  show ?case
  proof (cases "message_ok m")
    case True
    from parseIndividualMessage_data [OF True, of rt opts i] obtain msg
      where d: "sr_data (parseIndividualMessage rt opts m i) = Some msg" by blast
    with True Cons show ?thesis
      by (simp add: Let_def parseIndividualMessage_success)
  next
    case False
    then have "\<not> sr_success (parseIndividualMessage rt opts m i)"
      by (simp add: parseIndividualMessage_success)
    with False assms(1) Cons show ?thesis
      by (simp add: Let_def split: bool.splits option.splits)
  qed
qed

lemma lenient_from_warns:
  assumes "\<not> strictMode opts" and "k < length ms" and "\<not> message_ok (ms ! k)"
  shows "(''Skipped invalid message at index '' @ show_nat (i + k) @ '': ''
            @ (case sr_error (parseIndividualMessage rt opts (ms ! k) (i + k)) of
                 None \<Rightarrow> ''undefined'' | Some e \<Rightarrow> e))
         \<in> set (warnings_or_empty (sr_warnings (parseMessages_from rt opts ms i acc ws)))"
  using assms(2,3)
proof (induction ms arbitrary: i k acc ws)
  case Nil
  then show ?case by simp
next
  case (Cons m ms)
  show ?case
  proof (cases k)
    case 0
    with Cons.prems have bad: "\<not> sr_success (parseIndividualMessage rt opts m i)"
      by (simp add: parseIndividualMessage_success)
    let ?w = "''Skipped invalid message at index '' @ show_nat i @ '': ''
            @ (case sr_error (parseIndividualMessage rt opts m i) of
                 None \<Rightarrow> ''undefined'' | Some e \<Rightarrow> e)"
    let ?ws = "ws @ warnings_or_empty (sr_warnings (parseIndividualMessage rt opts m i)) @ [?w]"
    have "?w \<in> set ?ws" by simp
    from lenient_from_keeps_warnings [OF assms(1) this, of rt ms "i + 1" acc] bad assms(1) 0
    show ?thesis
      by (simp add: Let_def split: bool.splits option.splits)
  next
    case (Suc k')
    with Cons.prems have k': "k' < length ms" "\<not> message_ok (ms ! k')" by simp_all
    show ?thesis
    proof (cases "message_ok m")
      case True
      from parseIndividualMessage_data [OF True, of rt opts i] obtain msg
        where d: "sr_data (parseIndividualMessage rt opts m i) = Some msg" by blast
      with True Cons.IH [OF k', of "i + 1" "acc @ [msg]" ws] Suc show ?thesis
        by (simp add: Let_def parseIndividualMessage_success)
    next
      case False
      then have "\<not> sr_success (parseIndividualMessage rt opts m i)"
        by (simp add: parseIndividualMessage_success)
      with False assms(1) Suc Cons.IH [OF k', of "i + 1"] show ?thesis
        by (simp add: Let_def split: bool.splits option.splits)
    qed
  qed
qed

lemma parseIndividualMessage_error:
  "\<not> message_ok m \<Longrightarrow> \<exists>e. sr_error (parseIndividualMessage rt opts m i) = Some e \<and> e \<noteq> []"
  by (auto simp: parseIndividualMessage_def message_ok_def step_failed_def falsy_def
        falsy_opt_def Let_def split: option.splits json.splits prod.splits)

lemma failed_message_warnings:
  "\<not> message_ok m \<Longrightarrow> sr_warnings (parseIndividualMessage rt opts m i) = Some []"
  by (auto simp: parseIndividualMessage_def message_ok_def step_failed_def falsy_def
        falsy_opt_def Let_def split: option.splits json.splits prod.splits)

lemma bad_role_not_ok:
  "property m ''role'' \<noteq> Some (JStr ''user'') \<Longrightarrow>
   property m ''role'' \<noteq> Some (JStr ''assistant'') \<Longrightarrow> \<not> message_ok m"
  by (simp add: message_ok_def)

lemma session_strict_fails:
  assumes "strictMode opts" and "property s ''messages'' = Some (JArr ms)"
    and "\<exists>m \<in> set ms. \<not> message_ok m"
  shows "\<not> sr_success (parseIndividualSession rt opts s idx)"
proof -
  have "\<not> sr_success (parseMessages rt opts (JArr ms))"
    using strict_from_fails [OF assms(1,3)] by (simp add: parseMessages_def)
  with assms(2) show ?thesis
    by (auto simp: parseIndividualSession_def Let_def step_failed_def split: bool.splits option.splits)
qed

lemma session_timestamp_ok:
  "time_value_ok v \<Longrightarrow> \<exists>t. session_timestamp rt v = Inr t"
  by (auto simp: time_value_ok_def session_timestamp_def toISOString_def
        split: option.splits json.splits)

lemma session_lenient_succeeds:
  assumes len: "\<not> strictMode opts" and obj: "s = JObj kvs"
    and msgs: "property s ''messages'' = Some (JArr ms)"
    and good: "\<exists>m \<in> set ms. message_ok m"
    and ident: "requireSessionId opts \<longrightarrow>
                  string_property s ''id'' \<noteq> None \<or> string_property s ''sessionId'' \<noteq> None"
    and t1: "time_value_ok (property s ''createdAt'')"
    and t2: "time_value_ok (property s ''lastModified'')"
  shows "sr_success (parseIndividualSession rt opts s idx)
       \<and> (\<exists>session. sr_data (parseIndividualSession rt opts s idx) = Some session
            \<and> ps_messages session = map (parsed_message rt opts) (filter message_ok ms))"
proof -
  let ?msgs = "map (parsed_message rt opts) (filter message_ok ms)"
  have pm: "sr_success (parseMessages rt opts (JArr ms))"
    "sr_data (parseMessages rt opts (JArr ms)) = Some ?msgs"
    using lenient_from_succeeds [OF len, of rt ms 0 "[]" "[]"] by (simp_all add: parseMessages_def)
  have ne: "length ?msgs \<noteq> 0"
    using good by (auto simp: filter_empty_conv)
  have idok: "\<not> (requireSessionId opts \<and> falsy_string (extractSessionId rt opts s idx))"
    using ident
    by (auto simp: extractSessionId_def falsy_string_def string_property_def
          split: option.splits json.splits if_splits)
  from session_timestamp_ok [OF t1, of rt] session_timestamp_ok [OF t2, of rt]
  obtain c l where ts: "parseTimestamps rt s = Inr (c, l)"
    by (auto simp: parseTimestamps_def)
  have tr: "\<not> falsy s" "typeof s = TObject" using obj by (simp_all add: falsy_def)
  show ?thesis
    using tr idok msgs pm ne ts
    by (auto simp: parseIndividualSession_def Let_def)
qed

text \<open>
  A raw message whose role is neither \<open>user\<close> nor \<open>assistant\<close> is rejected under any options.
  In strict mode the message array and the session holding it fail, with the error of the
  first rejected message. In lenient mode a session with an id, an accepted message and
  time values that \<^verbatim>\<open>toISOString\<close> renders succeeds, keeps the accepted messages in order and
  warns about the skipped one with the error of that message. The error names the role when
  the role is a string.
\<close>

lemma invalid_role_rejected_or_skipped:
  assumes role: "property m ''role'' \<noteq> Some (JStr ''user'')"
                "property m ''role'' \<noteq> Some (JStr ''assistant'')"
  shows "\<not> sr_success (parseIndividualMessage rt opts m i)
     \<and> (strictMode opts \<and> m \<in> set ms \<and> property s ''messages'' = Some (JArr ms) \<longrightarrow>
          \<not> sr_success (parseMessages rt opts (JArr ms))
          \<and> \<not> sr_success (parseIndividualSession rt opts s idx))
     \<and> (strictMode opts \<and> (\<forall>x \<in> set pre. sr_success (parseIndividualMessage rt opts x 0)) \<longrightarrow>
          sr_error (parseMessages rt opts (JArr (pre @ m # rest)))
            = sr_error (parseIndividualMessage rt opts m (length pre)))
     \<and> (\<not> strictMode opts \<and> s = JObj kvs \<and> property s ''messages'' = Some (JArr ms)
          \<and> k < length ms \<and> ms ! k = m
          \<and> m' \<in> set ms \<and> sr_success (parseIndividualMessage rt opts m' j)
          \<and> (requireSessionId opts \<longrightarrow>
                string_property s ''id'' \<noteq> None \<or> string_property s ''sessionId'' \<noteq> None)
          \<and> time_value_ok (property s ''createdAt'')
          \<and> time_value_ok (property s ''lastModified'') \<longrightarrow>
          sr_success (parseIndividualSession rt opts s idx)
          \<and> (\<exists>session. sr_data (parseIndividualSession rt opts s idx) = Some session
                \<and> ps_messages session =
                    map (\<lambda>x. the (sr_data (parseIndividualMessage rt opts x 0)))
                      (filter (\<lambda>x. sr_success (parseIndividualMessage rt opts x 0)) ms))
          \<and> (\<exists>e. sr_error (parseIndividualMessage rt opts m k) = Some e
                \<and> (''Skipped invalid message at index '' @ show_nat k @ '': '' @ e)
                    \<in> set (warnings_or_empty (sr_warnings (parseMessages rt opts (JArr ms))))))
     \<and> (m = JObj mkvs \<and> property m ''role'' = Some (JStr r) \<longrightarrow>
          sr_error (parseIndividualMessage rt opts m i) = Some (''Invalid or missing role: '' @ r))"
proof (intro conjI impI)
  have bad: "\<not> message_ok m" using role by (rule bad_role_not_ok)
  show "\<not> sr_success (parseIndividualMessage rt opts m i)"
    using bad by (simp add: parseIndividualMessage_success)
  {
    assume a: "strictMode opts \<and> m \<in> set ms \<and> property s ''messages'' = Some (JArr ms)"
    then have ex: "\<exists>x \<in> set ms. \<not> message_ok x" using bad by blast
    from a ex strict_from_fails [where opts=opts and ms=ms and rt=rt and i=0 and acc="[]" and ws="[]"]
    show "\<not> sr_success (parseMessages rt opts (JArr ms))"
      by (simp add: parseMessages_def)
    from a ex session_strict_fails [where opts=opts and s=s and ms=ms and rt=rt and idx=idx]
    show "\<not> sr_success (parseIndividualSession rt opts s idx)" by blast
  }
  {
    assume a: "strictMode opts \<and> (\<forall>x \<in> set pre. sr_success (parseIndividualMessage rt opts x 0))"
    then have pre: "\<forall>x \<in> set pre. message_ok x"
      by (simp add: parseIndividualMessage_success)
    from parseIndividualMessage_error [OF bad, of rt opts "length pre"]
    obtain e where e: "sr_error (parseIndividualMessage rt opts m (length pre)) = Some e" "e \<noteq> []"
      by blast
    from a pre bad strict_from_first_invalid [where opts=opts and pre=pre and m=m and rt=rt and rest=rest and i=0 and acc="[]" and ws="[]"] e
    show "sr_error (parseMessages rt opts (JArr (pre @ m # rest)))
            = sr_error (parseIndividualMessage rt opts m (length pre))"
      by (simp add: parseMessages_def step_failed_def or_default_def)
  }
  {
    assume a: "\<not> strictMode opts \<and> s = JObj kvs \<and> property s ''messages'' = Some (JArr ms)
          \<and> k < length ms \<and> ms ! k = m
          \<and> m' \<in> set ms \<and> sr_success (parseIndividualMessage rt opts m' j)
          \<and> (requireSessionId opts \<longrightarrow>
                string_property s ''id'' \<noteq> None \<or> string_property s ''sessionId'' \<noteq> None)
          \<and> time_value_ok (property s ''createdAt'')
          \<and> time_value_ok (property s ''lastModified'')"
    then have good: "\<exists>x \<in> set ms. message_ok x"
      by (auto simp: parseIndividualMessage_success)
    have flt: "(\<lambda>x. sr_success (parseIndividualMessage rt opts x 0)) = message_ok"
      by (rule ext) (simp add: parseIndividualMessage_success)
    have mp: "(\<lambda>x. the (sr_data (parseIndividualMessage rt opts x 0))) = parsed_message rt opts"
      by (rule ext) (simp add: parsed_message_def)
    from a session_lenient_succeeds [of opts s kvs ms rt idx, OF _ _ _ good]
    show "sr_success (parseIndividualSession rt opts s idx)" by blast
    from a session_lenient_succeeds [of opts s kvs ms rt idx, OF _ _ _ good]
    show "\<exists>session. sr_data (parseIndividualSession rt opts s idx) = Some session
                \<and> ps_messages session =
                    map (\<lambda>x. the (sr_data (parseIndividualMessage rt opts x 0)))
                      (filter (\<lambda>x. sr_success (parseIndividualMessage rt opts x 0)) ms)"
      unfolding flt mp by blast
    from a bad have k: "k < length ms" "\<not> message_ok (ms ! k)" by auto
    from parseIndividualMessage_error [OF bad, of rt opts k]
    obtain e where e: "sr_error (parseIndividualMessage rt opts m k) = Some e" by blast
    from a k lenient_from_warns [where opts=opts and k=k and ms=ms and rt=rt and i=0 and acc="[]" and ws="[]"] e
    have "(''Skipped invalid message at index '' @ show_nat k @ '': '' @ e)
              \<in> set (warnings_or_empty (sr_warnings (parseMessages rt opts (JArr ms))))"
      by (auto simp: parseMessages_def)
    with e show "\<exists>e. sr_error (parseIndividualMessage rt opts m k) = Some e
                \<and> (''Skipped invalid message at index '' @ show_nat k @ '': '' @ e)
                    \<in> set (warnings_or_empty (sr_warnings (parseMessages rt opts (JArr ms))))"
      by blast
  }
  {
    assume a: "m = JObj mkvs \<and> property m ''role'' = Some (JStr r)"
    with role have "r \<noteq> ''user''" "r \<noteq> ''assistant''" by auto
    with a parseIndividualMessage_bad_role [of m mkvs r rt opts i]
    show "sr_error (parseIndividualMessage rt opts m i) = Some (''Invalid or missing role: '' @ r)"
      by (auto simp: step_failed_def)
  }
qed

text \<open>
  Claim C8 at a session with an id, a system message and a valid user message, whose
  \<open>createdAt\<close> is a number beyond the range of valid dates, in lenient mode. The system
  message is rejected and the user message accepted, yet the session fails, with the error
  \<^verbatim>\<open>toISOString\<close> throws. The same session parses when its \<open>createdAt\<close> is a string that is
  no date, and when it is a valid time value.
\<close>

theorem lenient_session_invalid_date:
  "\<not> strictMode lenient_options
   \<and> \<not> sr_success (parseIndividualMessage rt lenient_options system_message 0)
   \<and> sr_success (parseIndividualMessage rt lenient_options user_message 1)
   \<and> string_property (mixed_session (JNum 8640000000000001)) ''id'' = Some ''s1''
   \<and> property (mixed_session (JNum 8640000000000001)) ''messages''
        = Some (JArr [system_message, user_message])
   \<and> \<not> sr_success (parseIndividualSession rt lenient_options
                       (mixed_session (JNum 8640000000000001)) 0)
   \<and> sr_error (parseIndividualSession rt lenient_options
                       (mixed_session (JNum 8640000000000001)) 0)
        = Some ''Failed to parse session: Invalid time value''
   \<and> sr_success (parseIndividualSession rt lenient_options
                    (mixed_session (JStr ''not a date'')) 0)
   \<and> sr_success (parseIndividualSession rt lenient_options
                    (mixed_session (JNum 1700000000000)) 0)"
  by code_simp

lemma invalid_role_rejected_or_skipped_example:
  "property system_message ''role'' \<noteq> Some (JStr ''user'')
   \<and> property system_message ''role'' \<noteq> Some (JStr ''assistant'')
   \<and> \<not> sr_success (parseIndividualMessage example_runtime DEFAULT_VALIDATION_OPTIONS system_message 0)
   \<and> \<not> sr_success (parseIndividualMessage example_runtime lenient_options system_message 0)
   \<and> strictMode DEFAULT_VALIDATION_OPTIONS
   \<and> \<not> sr_success (parseIndividualSession example_runtime DEFAULT_VALIDATION_OPTIONS
                       (mixed_session (JNum 1700000000000)) 0)
   \<and> sr_error (parseMessages example_runtime DEFAULT_VALIDATION_OPTIONS
                 (JArr ([user_message] @ system_message # [user_message])))
        = Some ''Invalid or missing role: system''
   \<and> \<not> strictMode lenient_options
   \<and> sr_success (parseIndividualMessage example_runtime lenient_options user_message 1)
   \<and> time_value_ok (property (mixed_session (JNum 1700000000000)) ''createdAt'')
   \<and> sr_success (parseIndividualSession example_runtime lenient_options
                    (mixed_session (JNum 1700000000000)) 0)
   \<and> ''Skipped invalid message at index 0: Invalid or missing role: system''
        \<in> set (warnings_or_empty (sr_warnings (parseMessages example_runtime lenient_options
                 (JArr [system_message, user_message]))))"
proof -
  have r: "property system_message ''role'' \<noteq> Some (JStr ''user'')"
          "property system_message ''role'' \<noteq> Some (JStr ''assistant'')"
    by (simp_all add: system_message_def)
  note T = invalid_role_rejected_or_skipped [OF r]
  have s: "strictMode DEFAULT_VALIDATION_OPTIONS \<and> system_message \<in> set [system_message, user_message]
      \<and> property (mixed_session (JNum 1700000000000)) ''messages'' = Some (JArr [system_message, user_message])"
    by (simp add: DEFAULT_VALIDATION_OPTIONS_def mixed_session_def)
  have f: "strictMode DEFAULT_VALIDATION_OPTIONS
      \<and> (\<forall>x \<in> set [user_message].
            sr_success (parseIndividualMessage example_runtime DEFAULT_VALIDATION_OPTIONS x 0))"
    by code_simp
  have e: "sr_error (parseIndividualMessage example_runtime DEFAULT_VALIDATION_OPTIONS system_message
            (length [user_message])) = Some ''Invalid or missing role: system''"
    by code_simp
  have l: "\<not> strictMode lenient_options
      \<and> mixed_session (JNum 1700000000000) = JObj [(''id'', JStr ''s1''), (''createdAt'', JNum 1700000000000),
           (''messages'', JArr [system_message, user_message])]
      \<and> property (mixed_session (JNum 1700000000000)) ''messages'' = Some (JArr [system_message, user_message])
      \<and> 0 < length [system_message, user_message]
      \<and> [system_message, user_message] ! 0 = system_message
      \<and> user_message \<in> set [system_message, user_message]
      \<and> sr_success (parseIndividualMessage example_runtime lenient_options user_message 1)
      \<and> (requireSessionId lenient_options \<longrightarrow>
            string_property (mixed_session (JNum 1700000000000)) ''id'' \<noteq> None
            \<or> string_property (mixed_session (JNum 1700000000000)) ''sessionId'' \<noteq> None)
      \<and> time_value_ok (property (mixed_session (JNum 1700000000000)) ''createdAt'')
      \<and> time_value_ok (property (mixed_session (JNum 1700000000000)) ''lastModified'')"
    by code_simp
  have w: "sr_error (parseIndividualMessage example_runtime lenient_options system_message 0)
             = Some ''Invalid or missing role: system''"
    "show_nat 0 = ''0''"
    by code_simp+
  from T [where rt = example_runtime and opts = DEFAULT_VALIDATION_OPTIONS and i = 0,
      THEN conjunct1]
  have 1: "\<not> sr_success (parseIndividualMessage example_runtime DEFAULT_VALIDATION_OPTIONS system_message 0)" .
  from T [where rt = example_runtime and opts = lenient_options and i = 0, THEN conjunct1]
  have 2: "\<not> sr_success (parseIndividualMessage example_runtime lenient_options system_message 0)" .
  from T [where rt = example_runtime and opts = DEFAULT_VALIDATION_OPTIONS
      and ms = "[system_message, user_message]" and s = "mixed_session (JNum 1700000000000)" and idx = 0,
      THEN conjunct2, THEN conjunct1, rule_format, OF s]
  have 3: "\<not> sr_success (parseIndividualSession example_runtime DEFAULT_VALIDATION_OPTIONS
                       (mixed_session (JNum 1700000000000)) 0)" by simp
  from T [where rt = example_runtime and opts = DEFAULT_VALIDATION_OPTIONS
      and pre = "[user_message]" and rest = "[user_message]",
      THEN conjunct2, THEN conjunct2, THEN conjunct1, rule_format, OF f] e
  have 4: "sr_error (parseMessages example_runtime DEFAULT_VALIDATION_OPTIONS
                 (JArr ([user_message] @ system_message # [user_message])))
        = Some ''Invalid or missing role: system''" by simp
  from T [where rt = example_runtime and opts = lenient_options
      and ms = "[system_message, user_message]" and s = "mixed_session (JNum 1700000000000)" and idx = 0
      and k = 0 and m' = user_message and j = 1,
      THEN conjunct2, THEN conjunct2, THEN conjunct2, THEN conjunct1, rule_format, OF l]
  have 5: "sr_success (parseIndividualSession example_runtime lenient_options
                    (mixed_session (JNum 1700000000000)) 0)"
     "''Skipped invalid message at index 0: Invalid or missing role: system''
        \<in> set (warnings_or_empty (sr_warnings (parseMessages example_runtime lenient_options
                 (JArr [system_message, user_message]))))"
    using w by auto
  from r 1 2 3 4 5 s l show ?thesis by blast
qed

text \<open>
  Claim C9. With the default options, the raw input of the scenario parses successfully to
  exactly one session with id \<open>s1\<close>, whose metadata counts 2 messages, 1 of the user and 1
  of the assistant.
\<close>

theorem parse_s1_scenario:
  "pr_success (parseSessionData rt DEFAULT_VALIDATION_OPTIONS raw_s1)
   \<and> pr_data (parseSessionData rt DEFAULT_VALIDATION_OPTIONS raw_s1) =
       Some [\<lparr>ps_id = ''s1'',
              ps_messages = [\<lparr>cm_role = ''user'', cm_content = ''hi'', cm_timestamp = None\<rparr>,
                             \<lparr>cm_role = ''assistant'', cm_content = ''hello'',
                              cm_timestamp = None\<rparr>],
              ps_customTitle = None, ps_createdAt = None, ps_lastModified = None,
              ps_metadata = Some \<lparr>messageCount = 2, totalCharacters = 7, userMessageCount = 1,
                                  assistantMessageCount = 1, firstMessageTimestamp = None,
                                  lastMessageTimestamp = None\<rparr>\<rparr>]"
  by code_simp

section \<open>Queries and pagination\<close>

lemma js_slice_whole: "js_slice xs 0 (int (length xs)) = xs"
  by (simp add: js_slice_def)

lemma js_slice_nonneg:
  assumes "0 \<le> ofs" and "0 \<le> cnt"
  shows "js_slice xs ofs (ofs + cnt) = take (nat cnt) (drop (nat ofs) xs)"
proof (cases "ofs \<le> int (length xs)")
  case True
  have "take (nat (min (ofs + cnt) (int (length xs)) - ofs)) (drop (nat ofs) xs)
          = take (nat cnt) (drop (nat ofs) xs)"
  proof (cases "ofs + cnt \<le> int (length xs)")
    case True
    then show ?thesis by (simp add: min_def)
  next
    case False
    then have "length (drop (nat ofs) xs) \<le> nat cnt"
      using assms by simp
    moreover from False have "length (drop (nat ofs) xs) \<le> nat (min (ofs + cnt) (int (length xs)) - ofs)"
      using assms True by (simp add: min_def)
    ultimately show ?thesis by simp
  qed
  with True assms show ?thesis
    by (simp add: js_slice_def Let_def min_def)
next
  case False
  with assms show ?thesis
    by (simp add: js_slice_def Let_def min_def)
qed


text \<open>
  Claim C2, amended. When \<^verbatim>\<open>getInteractiveSessions\<close> succeeds, its sessions are the slice
  of the one fetched array from \<open>offset\<close> (0 when absent) to \<open>offset + limit\<close>, where an
  absent limit and a limit of 0 both stand for the length of the array, and
  \<open>pagination.total\<close> is the length of the fetched array. For a non-negative offset and limit
  the slice is \<open>take limit (drop offset raw)\<close>; with \<open>limit = 0\<close> it is all sessions from
  the offset on.
\<close>

theorem pagination_in_memory:
  assumes conn: "conn_success conn" "conn_database conn = Some db"
      and raw: "qr_success (fst (queryInteractiveSessionsRaw rt stores db engine))"
               "qr_data (fst (queryInteractiveSessionsRaw rt stores db engine)) = Some raw"
      and ok: "qr_success (fst (getInteractiveSessions rt stores conn options engine))"
      and ofs: "ofs = (case qo_offset options of None \<Rightarrow> 0 | Some v \<Rightarrow> v)"
      and cnt: "cnt = (case qo_limit options of
                         None \<Rightarrow> int (length raw)
                       | Some v \<Rightarrow> if v = 0 then int (length raw) else v)"
  shows "\<exists>d. qr_data (fst (getInteractiveSessions rt stores conn options engine)) = Some d
           \<and> sd_sessions d = js_slice raw ofs (ofs + cnt)
           \<and> pg_total (sd_pagination d) = length raw
           \<and> (0 \<le> ofs \<and> 0 \<le> cnt \<longrightarrow> sd_sessions d = take (nat cnt) (drop (nat ofs) raw))
           \<and> (0 \<le> ofs \<and> qo_limit options = Some 0 \<longrightarrow> sd_sessions d = drop (nat ofs) raw)"
proof -
  have o: "num_or (qo_offset options) 0 = ofs"
    by (simp add: ofs num_or_def split: option.splits)
  have l: "num_or (qo_limit options) (int (length raw)) = cnt"
    by (simp add: cnt num_or_def split: option.splits)
  have z: "num_or (qo_limit options) 0 = 0 \<Longrightarrow> cnt = int (length raw)"
    by (auto simp: cnt num_or_def split: option.splits if_splits)
  define processed where "processed =
     (if ofs \<noteq> 0 \<or> num_or (qo_limit options) 0 \<noteq> 0 then js_slice raw ofs (ofs + cnt) else raw)"
  have p: "processed = js_slice raw ofs (ofs + cnt)"
    using z by (auto simp: processed_def js_slice_whole)
  from conn raw ok obtain d where d: "qr_data (fst (getInteractiveSessions rt stores conn options engine)) = Some d"
    and s: "sd_sessions d = processed" and t: "pg_total (sd_pagination d) = length raw"
    by (auto simp: getInteractiveSessions_def Let_def o l processed_def
          split: sum.splits if_splits prod.splits)
  have n: "sd_sessions d = take (nat cnt) (drop (nat ofs) raw)" if "0 \<le> ofs" "0 \<le> cnt"
    using that s p by (simp add: js_slice_nonneg)
  have zero: "sd_sessions d = drop (nat ofs) raw" if "0 \<le> ofs" "qo_limit options = Some 0"
  proof -
    from that(2) have "cnt = int (length raw)" by (simp add: cnt)
    with n [OF that(1)] show ?thesis by simp
  qed
  from d s p t n zero show ?thesis by blast
qed

text \<open>
  Claim C2, as stated, fails in its last part: a call with \<open>limit = 0\<close> on a store of two
  sessions returns both sessions, not none.
\<close>

theorem limit_zero_counterexample:
  "qo_limit \<lparr>qo_limit = Some 0, qo_offset = None, qo_includeMetadata = False\<rparr> = Some 0
   \<and> qr_data (fst (queryInteractiveSessionsRaw example_runtime
                    (only_store (table_with (Some ''[{},{}]''))) 0 new_engine))
        = Some [JObj [], JObj []]
   \<and> fst (getInteractiveSessions example_runtime (only_store (table_with (Some ''[{},{}]'')))
            (connected 0) \<lparr>qo_limit = Some 0, qo_offset = None, qo_includeMetadata = False\<rparr>
            new_engine)
      = \<lparr>qr_success = True,
         qr_data = Some \<lparr>sd_sessions = [JObj [], JObj []], sd_metadata = None,
                          sd_pagination = \<lparr>pg_offset = 0, pg_limit = 2, pg_total = 2\<rparr>\<rparr>,
         qr_error = None, qr_executionTime = Some 0\<rparr>"
  by code_simp

theorem pagination_in_memory_witness:
  "conn_success (connected 0)
   \<and> qr_data (fst (queryInteractiveSessionsRaw example_runtime
                    (only_store (table_with (Some ''[{},{}]''))) 0 new_engine))
        = Some [JObj [], JObj []]
   \<and> qr_success (fst (getInteractiveSessions example_runtime
                        (only_store (table_with (Some ''[{},{}]''))) (connected 0)
                        \<lparr>qo_limit = Some 1, qo_offset = Some 1, qo_includeMetadata = True\<rparr>
                        new_engine))
   \<and> (\<exists>d. qr_data (fst (getInteractiveSessions example_runtime
                        (only_store (table_with (Some ''[{},{}]''))) (connected 0)
                        \<lparr>qo_limit = Some 1, qo_offset = Some 1, qo_includeMetadata = True\<rparr>
                        new_engine)) = Some d
          \<and> sd_sessions d = [JObj []] \<and> pg_total (sd_pagination d) = 2)
   \<and> (\<exists>d. qr_data (fst (getInteractiveSessions example_runtime
                        (only_store (table_with (Some ''[{},{}]''))) (connected 0)
                        \<lparr>qo_limit = Some 0, qo_offset = Some 1, qo_includeMetadata = True\<rparr>
                        new_engine)) = Some d
          \<and> sd_sessions d = [JObj []])"
proof -
  let ?st = "only_store (table_with (Some ''[{},{}]''))"
  let ?o1 = "\<lparr>qo_limit = Some 1, qo_offset = Some 1, qo_includeMetadata = True\<rparr>"
  let ?o2 = "\<lparr>qo_limit = Some 0, qo_offset = Some 1, qo_includeMetadata = True\<rparr>"
  have c: "conn_success (connected 0)" "conn_database (connected 0) = Some 0"
    by (simp_all add: connected_def)
  have r: "qr_success (fst (queryInteractiveSessionsRaw example_runtime ?st 0 new_engine))"
    "qr_data (fst (queryInteractiveSessionsRaw example_runtime ?st 0 new_engine))
       = Some [JObj [], JObj []]"
    by code_simp+
  have ok1: "qr_success (fst (getInteractiveSessions example_runtime ?st (connected 0) ?o1 new_engine))"
    by code_simp
  have ok2: "qr_success (fst (getInteractiveSessions example_runtime ?st (connected 0) ?o2 new_engine))"
    by code_simp
  from pagination_in_memory [OF c r ok1 refl refl]
  have 1: "\<exists>d. qr_data (fst (getInteractiveSessions example_runtime ?st (connected 0) ?o1 new_engine))
             = Some d
          \<and> sd_sessions d = [JObj []] \<and> pg_total (sd_pagination d) = 2"
    by auto
  from pagination_in_memory [OF c r ok2 refl refl]
  have 2: "\<exists>d. qr_data (fst (getInteractiveSessions example_runtime ?st (connected 0) ?o2 new_engine))
             = Some d
          \<and> sd_sessions d = [JObj []]"
    by auto
  from c r ok1 1 2 show ?thesis by blast
qed







text \<open>
  An engine that has run a query on one database runs its cached statement when it is handed
  another: handed the database with no row, the used engine answers with the two sessions of
  the first database, where a new engine answers with none.
\<close>

lemma cached_statement_example:
  "two_stores 2 = empty_table
   \<and> statement_handle used_engine 2 = 1
   \<and> qr_data (fst (queryInteractiveSessionsRaw example_runtime two_stores 2 used_engine))
        = Some [JObj [], JObj []]
   \<and> qr_data (fst (queryInteractiveSessionsRaw example_runtime two_stores 2 new_engine)) = Some []"
proof -
  have "two_stores 2 = empty_table" by (simp add: two_stores_def)
  moreover have "statement_handle used_engine 2 = 1" by code_simp
  moreover have "qr_data (fst (queryInteractiveSessionsRaw example_runtime two_stores 2 used_engine))
        = Some [JObj [], JObj []]" by code_simp
  moreover have "qr_data (fst (queryInteractiveSessionsRaw example_runtime two_stores 2 new_engine))
        = Some []" by code_simp
  ultimately show ?thesis by blast
qed

text \<open>
  Claim C10 at a store with no sessions row, for a new reader. With the breaker enabled (the
  default) \<^verbatim>\<open>getSessions\<close> returns success with no session list and no error: the failure
  result of \<^verbatim>\<open>getSessionsInternal\<close> is a resolved value, so the breaker counts it as a
  success. The internal operation, and \<^verbatim>\<open>getSessions\<close> with the breaker disabled, return
  the failure the claim describes.
\<close>

theorem getSessions_masks_empty_result:
  "fst (getSessions rt (only_store empty_table) (connected h) rnd t t'
          (new_reader DEFAULT_READER_CONFIG t0))
     = \<lparr>rr_success = True, rr_sessions = None, rr_error = None,
        rr_metadata = Some \<lparr>rm_totalSessions = 0, rm_processingTime = t' - t,
                            rm_circuitBreakerState = Some CLOSED\<rparr>\<rparr>
   \<and> fst (getSessionsInternal rt (only_store empty_table) (connected h)
            (new_reader DEFAULT_READER_CONFIG t0))
     = reader_failed ''No valid sessions could be parsed''
   \<and> fst (getSessions rt (only_store empty_table) (connected h) rnd t t'
            (new_reader (DEFAULT_READER_CONFIG\<lparr>enableCircuitBreaker := False\<rparr>) t0))
     = reader_failed ''No valid sessions could be parsed''"
  by code_simp

section \<open>The workspace id\<close>

lemma lower_char_eq_iff:
  assumes "of_char d \<notin> {65..90::nat}" and "of_char d \<notin> {97..122::nat}"
  shows "lower_char c = d \<longleftrightarrow> c = d"
proof -
  show ?thesis
  proof (cases "65 \<le> (of_char c :: nat) \<and> (of_char c :: nat) \<le> 90")
    case True
    then have l: "lower_char c = char_of ((of_char c :: nat) + 32)"
      by (simp add: lower_char_def Let_def)
    have "(of_char (lower_char c) :: nat) = of_char c + 32"
      using True unfolding l by (simp add: of_char_of)
    then have "(of_char (lower_char c) :: nat) \<in> {97..122}" using True by simp
    with assms(2) have "lower_char c \<noteq> d" by auto
    moreover from True assms(1) have "c \<noteq> d" by auto
    ultimately show ?thesis by simp
  next
    case False
    then show ?thesis by (auto simp: lower_char_def Let_def)
  qed
qed

lemma lower_char_SEP [simp]: "lower_char c = SEP \<longleftrightarrow> c = SEP"
  by (rule lower_char_eq_iff) (simp_all add: SEP_def)

lemma lower_char_dot [simp]: "lower_char c = CHR ''.'' \<longleftrightarrow> c = CHR ''.''"
  by (rule lower_char_eq_iff) simp_all

lemma lower_SEP [simp]: "lower_char SEP = SEP"
  using lower_char_SEP [of SEP] by simp

lemma split_path_nonempty [simp]: "split_path p \<noteq> []"
  by (induction p) (auto split: list.splits)

lemma split_path_lower: "split_path (toLowerCase p) = map toLowerCase (split_path p)"
proof (induction p)
  case Nil
  show ?case by (simp add: toLowerCase_def)
next
  case (Cons c cs)
  obtain s ss where sp: "split_path cs = s # ss" by (cases "split_path cs") auto
  with Cons show ?case by (simp add: toLowerCase_def)
qed

lemma split_path_snoc_SEP: "split_path (p @ [SEP]) = split_path p @ [[]]"
proof (induction p)
  case Nil
  show ?case by simp
next
  case (Cons c cs)
  obtain s ss where sp: "split_path cs = s # ss" by (cases "split_path cs") auto
  with Cons show ?case by simp
qed

lemma split_path_trailing: "split_path (p @ replicate n SEP) = split_path p @ replicate n []"
proof (induction n)
  case 0
  show ?case by simp
next
  case (Suc n)
  have "p @ replicate (Suc n) SEP = (p @ replicate n SEP) @ [SEP]"
    by (simp add: replicate_append_same)
  then show ?case
    using Suc split_path_snoc_SEP [of "p @ replicate n SEP"]
    by (simp add: replicate_append_same)
qed

lemma normalize_trailing_empty:
  "normalize_segments a (segs @ replicate n []) = normalize_segments a segs"
  by (induction n) (simp_all add: normalize_segments_def normalize_step_def replicate_append_same
        flip: append_assoc)

lemma strip_trailing_decomp:
  "\<exists>n. p = strip_trailing_seps p @ replicate n SEP"
proof -
  let ?P = "\<lambda>c. c = SEP"
  have "rev p = takeWhile ?P (rev p) @ dropWhile ?P (rev p)" by simp
  then have "p = rev (dropWhile ?P (rev p)) @ rev (takeWhile ?P (rev p))"
    by (metis rev_append rev_rev_ident)
  moreover have "takeWhile ?P (rev p) = replicate (length (takeWhile ?P (rev p))) SEP"
    by (metis (mono_tags, lifting) replicate_length_same set_takeWhileD)
  ultimately have "p = strip_trailing_seps p @ replicate (length (takeWhile ?P (rev p))) SEP"
    by (metis rev_replicate strip_trailing_seps_def)
  then show ?thesis ..
qed

lemma normalize_split_strip:
  "normalize_segments a (split_path p) = normalize_segments a (split_path (strip_trailing_seps p))"
proof -
  from strip_trailing_decomp [of p] obtain n where "p = strip_trailing_seps p @ replicate n SEP" ..
  then have "split_path p = split_path (strip_trailing_seps p) @ replicate n []"
    using split_path_trailing by metis
  then show ?thesis by (simp add: normalize_trailing_empty)
qed

lemma toLowerCase_dots [simp]:
  "toLowerCase s = [] \<longleftrightarrow> s = []"
  "toLowerCase s = ''.'' \<longleftrightarrow> s = ''.''"
  "toLowerCase s = ''..'' \<longleftrightarrow> s = ''..''"
  by (auto simp: toLowerCase_def)

lemma toLowerCase_dotdot [simp]: "toLowerCase ''..'' = ''..''"
  by (simp add: toLowerCase_def lower_char_def)

lemma normalize_step_lower:
  "normalize_step a (map toLowerCase res) (toLowerCase seg)
     = map toLowerCase (normalize_step a res seg)"
  by (auto simp: normalize_step_def last_map map_butlast)

lemma normalize_lower_aux:
  "foldl (normalize_step a) (map toLowerCase res) (map toLowerCase segs)
     = map toLowerCase (foldl (normalize_step a) res segs)"
  by (induction segs arbitrary: res) (simp_all add: normalize_step_lower)

lemma normalize_lower:
  "normalize_segments a (map toLowerCase segs) = map toLowerCase (normalize_segments a segs)"
  using normalize_lower_aux [of a "[]" segs] by (simp add: normalize_segments_def)

lemma join_lower:
  "toLowerCase (join [SEP] segs) = join [SEP] (map toLowerCase segs)"
  by (induction "[SEP]" segs rule: join.induct) (simp_all add: toLowerCase_def)

lemma resolve_absolute:
  assumes "isAbsolute p"
  shows "toLowerCase (path_resolve cwd p)
           = SEP # join [SEP] (normalize_segments False
                   (split_path (toLowerCase (strip_trailing_seps p))))"
proof -
  have "path_resolve cwd p = SEP # join [SEP] (normalize_segments False (split_path p))"
    using assms by (simp add: path_resolve_def Let_def)
  also have "\<dots> = SEP # join [SEP] (normalize_segments False (split_path (strip_trailing_seps p)))"
    using normalize_split_strip [of False p] by simp
  finally have "toLowerCase (path_resolve cwd p)
      = toLowerCase (SEP # join [SEP] (normalize_segments False (split_path (strip_trailing_seps p))))"
    by simp
  also have "\<dots> = SEP # toLowerCase (join [SEP] (normalize_segments False (split_path (strip_trailing_seps p))))"
    by (simp add: toLowerCase_def)
  finally show ?thesis
    by (simp add: join_lower split_path_lower normalize_lower)
qed

lemma hex_digit_range: "n < 16 \<Longrightarrow> hex_digit n \<in> set ''0123456789abcdef''"
  unfolding hex_digit_def by (rule nth_mem) simp

lemma hex_of_digest_shape:
  "length (hex_of_digest w) = 32" "set (hex_of_digest w) \<subseteq> set ''0123456789abcdef''"
proof -
  show "length (hex_of_digest w) = 32" by (simp add: hex_of_digest_def)
  show "set (hex_of_digest w) \<subseteq> set ''0123456789abcdef''"
    unfolding hex_of_digest_def using hex_digit_range by (auto simp del: set_simps list.set)
qed

text \<open>
  Claim C6. Two absolute workspace paths that are equal up to letter case and trailing
  separators get the same workspace id, and so do two identical paths; the id is always a
  string of 32 lowercase hexadecimal characters. This holds for every digest function and
  every working directory.
\<close>

theorem workspace_id_canonical:
  "(isAbsolute p \<and> isAbsolute q
      \<and> toLowerCase (strip_trailing_seps p) = toLowerCase (strip_trailing_seps q) \<longrightarrow>
        generateWorkspaceId hash cwd p = generateWorkspaceId hash cwd q)
   \<and> (p = q \<longrightarrow> generateWorkspaceId hash cwd p = generateWorkspaceId hash cwd q)
   \<and> length (generateWorkspaceId hash cwd p) = 32
   \<and> (\<forall>c \<in> set (generateWorkspaceId hash cwd p). c \<in> set ''0123456789abcdef'')"
proof (intro conjI impI)
  assume "isAbsolute p \<and> isAbsolute q
      \<and> toLowerCase (strip_trailing_seps p) = toLowerCase (strip_trailing_seps q)"
  then have "toLowerCase (path_resolve cwd p) = toLowerCase (path_resolve cwd q)"
    by (simp add: resolve_absolute)
  then show "generateWorkspaceId hash cwd p = generateWorkspaceId hash cwd q"
    by (simp add: generateWorkspaceId_def)
next
  assume "p = q"
  then show "generateWorkspaceId hash cwd p = generateWorkspaceId hash cwd q" by simp
next
  show "length (generateWorkspaceId hash cwd p) = 32"
    by (simp add: generateWorkspaceId_def hex_of_digest_shape)
  show "\<forall>c \<in> set (generateWorkspaceId hash cwd p). c \<in> set ''0123456789abcdef''"
    using hex_of_digest_shape(2) [of "hash (toLowerCase (path_resolve cwd p))"]
    using set_take_subset [of 32 "hex_of_digest (hash (toLowerCase (path_resolve cwd p)))"]
    unfolding generateWorkspaceId_def Let_def by blast
qed

theorem workspace_id_canonical_witness:
  "isAbsolute ''/Users/Me/Proj/'' \<and> isAbsolute ''/users/me/proj''
   \<and> toLowerCase (strip_trailing_seps ''/Users/Me/Proj/'')
        = toLowerCase (strip_trailing_seps ''/users/me/proj'')
   \<and> generateWorkspaceId example_digest ''/home/u'' ''/Users/Me/Proj/''
        = ''00079782060f1db2971999c289a54d61''
   \<and> generateWorkspaceId example_digest ''/home/u'' ''/users/me/proj''
        = ''00079782060f1db2971999c289a54d61''
   \<and> length (generateWorkspaceId example_digest ''/home/u'' ''/Users/Me/Proj/'') = 32"
proof -
  have h: "isAbsolute ''/Users/Me/Proj/'' \<and> isAbsolute ''/users/me/proj''
      \<and> toLowerCase (strip_trailing_seps ''/Users/Me/Proj/'')
           = toLowerCase (strip_trailing_seps ''/users/me/proj'')"
    by code_simp
  have r: "toLowerCase (path_resolve ''/home/u'' ''/users/me/proj'') = ''/users/me/proj''"
    by code_simp
  have d: "example_digest ''/users/me/proj'' = 39419023396206239256257494899838305"
    by (simp add: example_digest_def)
  have x: "hex_of_digest 39419023396206239256257494899838305 = ''00079782060f1db2971999c289a54d61''"
    by (simp add: hex_of_digest_def hex_digit_def upt_conv_Cons)
  have i: "generateWorkspaceId example_digest ''/home/u'' ''/users/me/proj''
        = ''00079782060f1db2971999c289a54d61''"
    by (simp add: generateWorkspaceId_def r d x)
  note T = workspace_id_canonical [where hash = example_digest and cwd = "''/home/u''"
      and p = "''/Users/Me/Proj/''" and q = "''/users/me/proj''"]
  from T [THEN conjunct1, rule_format, OF h] i
  have j: "generateWorkspaceId example_digest ''/home/u'' ''/Users/Me/Proj/''
        = ''00079782060f1db2971999c289a54d61''" by simp
  from T have l: "length (generateWorkspaceId example_digest ''/home/u'' ''/Users/Me/Proj/'') = 32"
    by blast
  from h i j l show ?thesis by blast
qed

end
